theory Spec2Isabelle
  imports Main "HOL-Library.AList"
begin

section \<open>Values\<close>

text \<open>
  The Python values that \<open>json.dumps\<close> accepts (\<open>caching_complete.py\<close> passes them
  to \<open>cache_set\<close> and gets them back from \<open>cache_get\<close>): \<open>None\<close>, booleans,
  integers, strings, lists, tuples, and dicts whose keys are strings, integers, booleans
  or \<open>None\<close>. A dict is the list of its items in insertion order, with distinct keys
  (Python takes \<open>True\<close> and \<open>1\<close>, and \<open>False\<close> and \<open>0\<close>, for the same
  key). Floats are left out.
\<close>

datatype pykey = KStr string | KInt int | KBool bool | KNone

datatype pyval =
    PNone
  | PBool bool
  | PInt int
  | PStr string
  | PList "pyval list"
  | PTuple "pyval list"
  | PDict "(pykey \<times> pyval) list"

text \<open>
  A JSON document. The text that \<open>json.dumps\<close> writes into Redis is represented by
  the document it denotes; an object is the list of its members as written, so a name
  can occur twice. The text of a document is never the empty string, so the test
  \<open>if value:\<close> of \<open>cache_get\<close> on the stored text succeeds exactly when the key is
  there.
\<close>

datatype json =
    JNull
  | JBool bool
  | JInt int
  | JStr string
  | JArr "json list"
  | JObj "(string \<times> json) list"

text \<open>Python's \<open>str\<close> of an integer, as f-strings and \<open>json.dumps\<close> use it.\<close>

definition digit_char :: "nat \<Rightarrow> char" where
  "digit_char d = ''0123456789'' ! d"

function str_nat :: "nat \<Rightarrow> string" where
  "str_nat n = (if n < 10 then [digit_char n] else str_nat (n div 10) @ [digit_char (n mod 10)])"
  by pat_completeness auto
termination
  by (relation "measure (\<lambda>n. n)") auto

declare str_nat.simps [simp del]

definition str_int :: "int \<Rightarrow> string" where
  "str_int i = (if i < 0 then CHR ''-'' # str_nat (nat (- i)) else str_nat (nat i))"

text \<open>
  \<open>json.dumps\<close>: a tuple is written as an array, and a dict key that is not a string
  is written as one (\<open>1\<close> as \<open>"1"\<close>, \<open>True\<close> as \<open>"true"\<close>, \<open>None\<close> as
  \<open>"null"\<close>).
\<close>

fun key_str :: "pykey \<Rightarrow> string" where
  "key_str (KStr s) = s"
| "key_str (KInt n) = str_int n"
| "key_str (KBool b) = (if b then ''true'' else ''false'')"
| "key_str KNone = ''null''"

fun json_dumps :: "pyval \<Rightarrow> json" where
  "json_dumps PNone = JNull"
| "json_dumps (PBool b) = JBool b"
| "json_dumps (PInt n) = JInt n"
| "json_dumps (PStr s) = JStr s"
| "json_dumps (PList xs) = JArr (map json_dumps xs)"
| "json_dumps (PTuple xs) = JArr (map json_dumps xs)"
| "json_dumps (PDict kvs) = JObj (map (\<lambda>(k, v). (key_str k, json_dumps v)) kvs)"

text \<open>
  \<open>json.loads\<close>: an array becomes a list, an object a dict with string keys, built
  member by member as \<open>d[k] = v\<close> does: a repeated name keeps its first place and takes
  the last value.
\<close>

definition dict_of_pairs :: "(pykey \<times> pyval) list \<Rightarrow> (pykey \<times> pyval) list" where
  "dict_of_pairs kvs = foldl (\<lambda>d (k, v). AList.update k v d) [] kvs"

fun json_loads :: "json \<Rightarrow> pyval" where
  "json_loads JNull = PNone"
| "json_loads (JBool b) = PBool b"
| "json_loads (JInt n) = PInt n"
| "json_loads (JStr s) = PStr s"
| "json_loads (JArr xs) = PList (map json_loads xs)"
| "json_loads (JObj kvs) = PDict (dict_of_pairs (map (\<lambda>(k, v). (KStr k, json_loads v)) kvs))"

text \<open>
  The values that JSON holds as they are: no tuple anywhere, and every dict with
  string keys only (distinct, as the keys of a dict are).
\<close>

fun is_str_key :: "pykey \<Rightarrow> bool" where
  "is_str_key (KStr s) = True"
| "is_str_key k = False"

fun json_native :: "pyval \<Rightarrow> bool" where
  "json_native (PList xs) = list_all json_native xs"
| "json_native (PTuple xs) = False"
| "json_native (PDict kvs) =
     (distinct (map fst kvs) \<and> list_all (\<lambda>(k, v). is_str_key k \<and> json_native v) kvs)"
| "json_native v = True"

text \<open>Python's truth test, as \<open>if cached:\<close> applies it to a loaded value.\<close>

fun truthy :: "pyval \<Rightarrow> bool" where
  "truthy PNone = False"
| "truthy (PBool b) = b"
| "truthy (PInt n) = (n \<noteq> 0)"
| "truthy (PStr s) = (s \<noteq> [])"
| "truthy (PList xs) = (xs \<noteq> [])"
| "truthy (PTuple xs) = (xs \<noteq> [])"
| "truthy (PDict kvs) = (kvs \<noteq> [])"

text \<open>
  What a call can raise. \<open>HTTPException\<close> carries the status code and the detail;
  \<open>DbError\<close> is whatever the ORM session raised, passed through unread.
\<close>

datatype error =
    InvalidTTL
  | NotIntegerOrOutOfRange
  | HTTPException nat string
  | DbError string

section \<open>The store behind \<open>redis_client\<close>\<close>

text \<open>
  \<open>redis_client = fakeredis.FakeRedis(decode_responses=True)\<close> is a third-party
  client; the repository holds only its callers. The definitions of this section follow
  the specification's TTL store (spec section 4.1), one definition per client call the
  source makes. Time is counted in whole seconds; \<open>clock\<close> is the wall clock that both
  the store and \<open>time.time()\<close> read.
\<close>

record entry =
  payload :: json
  expires_at :: "int option"

record redis =
  entries :: "(string \<times> entry) list"
  clock :: nat

definition fresh :: redis where
  "fresh = \<lparr>entries = [], clock = 0\<rparr>"

text \<open>Time passing between two calls.\<close>

definition elapse :: "nat \<Rightarrow> redis \<Rightarrow> redis" where
  "elapse d r = r\<lparr>clock := clock r + d\<rparr>"

text \<open>
  Modelled from the spec: the store's expiry rule (the client is not under src/). An
  entry whose \<open>expires_at\<close> is in the past is logically absent: a miss as soon as
  \<open>now >= expires_at\<close>.
\<close>

definition live :: "nat \<Rightarrow> entry \<Rightarrow> bool" where
  "live t e = (case expires_at e of None \<Rightarrow> True | Some x \<Rightarrow> int t < x)"

text \<open>The logical content of the store: the entry under a key, if it has not expired.\<close>

definition lookup :: "redis \<Rightarrow> string \<Rightarrow> entry option" where
  "lookup r k =
     (case map_of (entries r) k of
        None \<Rightarrow> None
      | Some e \<Rightarrow> if live (clock r) e then Some e else None)"

text \<open>
  Modelled from the spec: \<open>redis_client.get\<close> (the client is not under src/).
  Spec 4.1 \<open>get\<close>: a miss if the key is absent or expired; on an expiry-triggered miss
  the entry is deleted; a hit only reads.
\<close>

definition redis_get :: "redis \<Rightarrow> string \<Rightarrow> json option \<times> redis" where
  "redis_get r k =
     (case map_of (entries r) k of
        None \<Rightarrow> (None, r)
      | Some e \<Rightarrow>
          if live (clock r) e then (Some (payload e), r)
          else (None, r\<lparr>entries := AList.delete k (entries r)\<rparr>))"

text \<open>
  Modelled from the spec: \<open>redis_client.setex\<close> (the client is not under src/).
  Spec 4.1 \<open>set\<close>: \<open>expires_at = now + ttl\<close>; a \<open>ttl\<close> of zero or negative is the
  error \<open>InvalidTTL\<close>; an existing entry is overwritten unconditionally.
\<close>

definition redis_setex :: "redis \<Rightarrow> string \<Rightarrow> int \<Rightarrow> json \<Rightarrow> (error + unit) \<times> redis" where
  "redis_setex r k ttl v =
     (if ttl \<le> 0 then (Inl InvalidTTL, r)
      else (Inr (),
            r\<lparr>entries :=
                AList.update k \<lparr>payload = v, expires_at = Some (int (clock r) + ttl)\<rparr>
                  (entries r)\<rparr>))"

text \<open>
  Modelled from the spec: \<open>redis_client.delete\<close> (the client is not under src/).
  Spec 4.1 \<open>delete\<close>: true (the client's count 1) if a key was removed, false (0) if
  it was absent; never an error. An expired entry is logically absent.
\<close>

definition redis_delete :: "redis \<Rightarrow> string \<Rightarrow> int \<times> redis" where
  "redis_delete r k =
     (case map_of (entries r) k of
        None \<Rightarrow> (0, r)
      | Some e \<Rightarrow>
          (if live (clock r) e then 1 else 0,
           r\<lparr>entries := AList.delete k (entries r)\<rparr>))"

text \<open>
  Modelled from the spec: the pattern language of \<open>redis_client.scan_iter\<close> (the
  client is not under src/). Spec 4.1: glob-style, \<open>*\<close> wildcard only; \<open>*\<close> stands
  for any run of characters, every other character for itself.
\<close>

fun glob_match :: "string \<Rightarrow> string \<Rightarrow> bool" where
  "glob_match [] s = (s = [])"
| "glob_match (p # ps) [] = (p = CHR ''*'' \<and> glob_match ps [])"
| "glob_match (p # ps) (c # cs) =
     (if p = CHR ''*'' then glob_match ps (c # cs) \<or> glob_match (p # ps) cs
      else p = c \<and> glob_match ps cs)"

text \<open>
  Modelled from the spec: \<open>redis_client.scan_iter\<close> (the client is not under src/).
  Spec 4.1: the pattern scan honours expiry, so it yields the keys that match and have
  not expired. The order in which a scan yields keys is the store's own.
\<close>

definition redis_scan_iter :: "redis \<Rightarrow> string \<Rightarrow> string list" where
  "redis_scan_iter r pat =
     filter (\<lambda>k. glob_match pat k \<and> lookup r k \<noteq> None) (map fst (entries r))"

text \<open>
  Modelled from the spec: \<open>redis_client.incr\<close> (the client is not under src/).
  Spec 4.1 \<open>increment\<close>, the fetch-add half: an absent (or expired) key is
  initialised to 0 before incrementing, and the call returns the post-increment value.
  The expiry is left as it is (a new counter has none): the source sets it with a call of
  its own, \<open>redis_client.expire\<close>. Where the spec is silent, the client's reply is
  used: an error when the entry is not an integer or the result leaves the signed 64-bit
  range.
\<close>

definition redis_incr :: "redis \<Rightarrow> string \<Rightarrow> (error + int) \<times> redis" where
  "redis_incr r k =
     (case lookup r k of
        None \<Rightarrow>
          (Inr 1,
           r\<lparr>entries := AList.update k \<lparr>payload = JInt 1, expires_at = None\<rparr> (entries r)\<rparr>)
      | Some e \<Rightarrow>
          (case payload e of
             JInt n \<Rightarrow>
               if n + 1 < 2 ^ 63 \<and> - (2 ^ 63) \<le> n then
                 (Inr (n + 1),
                  r\<lparr>entries := AList.update k (e\<lparr>payload := JInt (n + 1)\<rparr>) (entries r)\<rparr>)
               else (Inl NotIntegerOrOutOfRange, r)
           | _ \<Rightarrow> (Inl NotIntegerOrOutOfRange, r)))"

text \<open>
  Modelled from the spec: \<open>redis_client.expire\<close> (the client is not under src/).
  Spec 4.1 \<open>increment\<close>, the expiry half: \<open>expires_at = now + window_ttl\<close> on an
  entry that is there; an invalid TTL is reported. The result is the number of keys
  whose expiry was set.
\<close>

definition redis_expire :: "redis \<Rightarrow> string \<Rightarrow> int \<Rightarrow> (error + int) \<times> redis" where
  "redis_expire r k ttl =
     (if ttl \<le> 0 then (Inl InvalidTTL, r)
      else
        (case lookup r k of
           None \<Rightarrow> (Inr 0, r)
         | Some e \<Rightarrow>
             (Inr 1,
              r\<lparr>entries :=
                  AList.update k (e\<lparr>expires_at := Some (int (clock r) + ttl)\<rparr>) (entries r)\<rparr>)))"

text \<open>
  Modelled from the spec: \<open>redis_client.ttl\<close> (the client is not under src/).
  Spec 4.1 \<open>ttl_remaining\<close>: \<open>None\<close> if the key is absent or expired, otherwise
  \<open>expires_at - now\<close>; an entry without expiry has no remaining time to report.
\<close>

definition redis_ttl :: "redis \<Rightarrow> string \<Rightarrow> int option" where
  "redis_ttl r k =
     (case lookup r k of
        None \<Rightarrow> None
      | Some e \<Rightarrow>
          (case expires_at e of None \<Rightarrow> None | Some x \<Rightarrow> Some (x - int (clock r))))"

section \<open>Cache helper functions\<close>

text \<open>
  \<open>cache_get\<close>: \<open>value = redis_client.get(key)\<close>; \<open>json.loads(value)\<close> if there is
  one, \<open>None\<close> otherwise.
\<close>

definition cache_get :: "redis \<Rightarrow> string \<Rightarrow> pyval \<times> redis" where
  "cache_get r key =
     (case redis_get r key of
        (Some v, r') \<Rightarrow> (json_loads v, r')
      | (None, r') \<Rightarrow> (PNone, r'))"

text \<open>
  \<open>cache_set\<close>: \<open>redis_client.setex(key, ttl_seconds, json.dumps(value))\<close>. The
  function has no \<open>return\<close>, so it returns \<open>None\<close>; what the client raises passes
  through. (Python's default \<open>ttl_seconds = 300\<close> is the caller's to write out.)
\<close>

definition cache_set :: "redis \<Rightarrow> string \<Rightarrow> pyval \<Rightarrow> int \<Rightarrow> (error + pyval) \<times> redis" where
  "cache_set r key v ttl_seconds =
     (case redis_setex r key ttl_seconds (json_dumps v) of
        (Inl e, r') \<Rightarrow> (Inl e, r')
      | (Inr _, r') \<Rightarrow> (Inr PNone, r'))"

text \<open>\<open>cache_delete\<close>: \<open>redis_client.delete(key)\<close>, its result dropped.\<close>

definition cache_delete :: "redis \<Rightarrow> string \<Rightarrow> pyval \<times> redis" where
  "cache_delete r key = (PNone, snd (redis_delete r key))"

text \<open>
  \<open>cache_delete_pattern\<close>: \<open>for key in redis_client.scan_iter(pattern):
  redis_client.delete(key)\<close>.
\<close>

definition cache_delete_pattern :: "redis \<Rightarrow> string \<Rightarrow> pyval \<times> redis" where
  "cache_delete_pattern r pattern =
     (PNone, foldl (\<lambda>r' key. snd (redis_delete r' key)) r (redis_scan_iter r pattern))"

section \<open>Keys\<close>

text \<open>\<open>f"product:{product_id}"\<close>\<close>

definition product_key :: "int \<Rightarrow> string" where
  "product_key product_id = ''product:'' @ str_int product_id"

text \<open>
  \<open>f"rate:{client_ip}:{current_minute}"\<close> with
  \<open>current_minute = int(time.time() / 60)\<close>.
\<close>

definition rate_key :: "string \<Rightarrow> nat \<Rightarrow> string" where
  "rate_key client_ip t = ''rate:'' @ client_ip @ '':'' @ str_int (int (t div 60))"

section \<open>The database session\<close>

text \<open>
  \<open>ProductModel\<close> rows and the \<open>ProductCreate\<close> body. \<open>product_data\<close> is
  \<open>ProductResponse.from_orm(product).dict()\<close>.
\<close>

record product =
  p_id :: int
  p_name :: string
  p_description :: string
  p_price :: int
  p_category :: string

record product_create =
  c_name :: string
  c_description :: string
  c_price :: int
  c_category :: string

definition product_data :: "product \<Rightarrow> pyval" where
  "product_data p =
     PDict [(KStr ''id'', PInt (p_id p)), (KStr ''name'', PStr (p_name p)),
            (KStr ''description'', PStr (p_description p)), (KStr ''price'', PInt (p_price p)),
            (KStr ''category'', PStr (p_category p))]"

text \<open>
  The SQLAlchemy session \<open>db\<close> is the caller-supplied source of truth (the loader and
  writer of spec sections 4.2, 4.3 and 6): the handlers take its operations as
  parameters, over a database state \<open>'d\<close> of the caller's choice. Each operation
  returns what the session returned or the error it raised, and the database state
  after it.
  \<^item> \<open>query_first\<close>: \<open>db.query(ProductModel).filter(ProductModel.id == product_id).first()\<close>;
  \<^item> \<open>add_commit\<close>: \<open>db.add(db_product); db.commit(); db.refresh(db_product)\<close>,
    returning the refreshed row;
  \<^item> \<open>update_commit\<close>: the \<open>setattr\<close> loop over \<open>updates\<close>, \<open>db.commit()\<close>
    and \<open>db.refresh(product)\<close>, returning the refreshed row;
  \<^item> \<open>delete_commit\<close>: \<open>db.delete(product); db.commit()\<close>.
\<close>

record 'd session =
  query_first :: "'d \<Rightarrow> int \<Rightarrow> (error + product option) \<times> 'd"
  add_commit :: "'d \<Rightarrow> product_create \<Rightarrow> (error + product) \<times> 'd"
  update_commit :: "'d \<Rightarrow> product \<Rightarrow> (string \<times> pyval) list \<Rightarrow> (error + product) \<times> 'd"
  delete_commit :: "'d \<Rightarrow> product \<Rightarrow> (error + unit) \<times> 'd"

section \<open>Cache aside\<close>

text \<open>
  The response of \<open>get_product_cache_aside\<close>: \<open>cache_hit\<close> stands for its
  \<open>"source"\<close> text (CACHE HIT or CACHE MISS), \<open>product\<close> for its \<open>"product"\<close>.
\<close>

record aside_response =
  cache_hit :: bool
  product :: pyval

definition get_product_cache_aside ::
  "'d session \<Rightarrow> int \<Rightarrow> 'd \<times> redis \<Rightarrow> (error + aside_response) \<times> ('d \<times> redis)" where
  "get_product_cache_aside db product_id s =
     (case s of (d, r) \<Rightarrow>
      let cache_key = product_key product_id in
      (case cache_get r cache_key of (cached, r1) \<Rightarrow>
       if truthy cached then (Inr \<lparr>cache_hit = True, product = cached\<rparr>, (d, r1))
       else
         (case query_first db d product_id of
            (Inl e, d1) \<Rightarrow> (Inl e, (d1, r1))
          | (Inr None, d1) \<Rightarrow> (Inl (HTTPException 404 ''Product not found''), (d1, r1))
          | (Inr (Some p), d1) \<Rightarrow>
              (case cache_set r1 cache_key (product_data p) 3600 of
                 (Inl e, r2) \<Rightarrow> (Inl e, (d1, r2))
               | (Inr _, r2) \<Rightarrow>
                   (Inr \<lparr>cache_hit = False, product = product_data p\<rparr>, (d1, r2))))))"

section \<open>Write through\<close>

text \<open>The response of the two write-through handlers.\<close>

record write_response =
  written :: pyval
  cache_updated :: bool

definition create_product_write_through ::
  "'d session \<Rightarrow> product_create \<Rightarrow> 'd \<times> redis \<Rightarrow> (error + write_response) \<times> ('d \<times> redis)" where
  "create_product_write_through db body s =
     (case s of (d, r) \<Rightarrow>
      (case add_commit db d body of
         (Inl e, d1) \<Rightarrow> (Inl e, (d1, r))
       | (Inr db_product, d1) \<Rightarrow>
           (case cache_set r (product_key (p_id db_product)) (product_data db_product) 3600 of
              (Inl e, r1) \<Rightarrow> (Inl e, (d1, r1))
            | (Inr _, r1) \<Rightarrow>
                (case cache_delete_pattern r1 ''products:list:*'' of (_, r2) \<Rightarrow>
                 (Inr \<lparr>written = product_data db_product, cache_updated = True\<rparr>,
                  (d1, r2))))))"

definition update_product_write_through ::
  "'d session \<Rightarrow> int \<Rightarrow> (string \<times> pyval) list \<Rightarrow> 'd \<times> redis \<Rightarrow>
   (error + write_response) \<times> ('d \<times> redis)" where
  "update_product_write_through db product_id updates s =
     (case s of (d, r) \<Rightarrow>
      (case query_first db d product_id of
         (Inl e, d1) \<Rightarrow> (Inl e, (d1, r))
       | (Inr None, d1) \<Rightarrow> (Inl (HTTPException 404 ''Product not found''), (d1, r))
       | (Inr (Some p), d1) \<Rightarrow>
           (case update_commit db d1 p updates of
              (Inl e, d2) \<Rightarrow> (Inl e, (d2, r))
            | (Inr p', d2) \<Rightarrow>
                (case cache_set r (product_key product_id) (product_data p') 3600 of
                   (Inl e, r1) \<Rightarrow> (Inl e, (d2, r1))
                 | (Inr _, r1) \<Rightarrow>
                     (Inr \<lparr>written = product_data p', cache_updated = True\<rparr>, (d2, r1))))))"

section \<open>Rate limiting\<close>

text \<open>\<open>RATE_LIMIT = 10\<close>: ten requests per minute.\<close>

definition RATE_LIMIT :: int where
  "RATE_LIMIT = 10"

text \<open>
  The counter step of \<open>rate_limited_search\<close>:
  \<open>request_count = redis_client.incr(rate_key)\<close>, then
  \<open>if request_count == 1: redis_client.expire(rate_key, 60)\<close>.
\<close>

definition rate_count :: "redis \<Rightarrow> string \<Rightarrow> (error + int) \<times> redis" where
  "rate_count r k =
     (case redis_incr r k of
        (Inl e, r1) \<Rightarrow> (Inl e, r1)
      | (Inr request_count, r1) \<Rightarrow>
          if request_count = 1 then
            (case redis_expire r1 k 60 of
               (Inl e, r2) \<Rightarrow> (Inl e, r2)
             | (Inr _, r2) \<Rightarrow> (Inr request_count, r2))
          else (Inr request_count, r1))"

text \<open>
  The \<open>"rate_limit_status"\<close> of the response, with the query and its results.
  \<open>resets_in\<close> is the number that the source formats into \<open>"... seconds"\<close>.
\<close>

record search_response =
  query :: string
  results :: "string list"
  requests_this_minute :: int
  limit :: int
  remaining :: int
  resets_in :: "int option"

definition str_ttl :: "int option \<Rightarrow> string" where
  "str_ttl t = (case t of None \<Rightarrow> ''None'' | Some n \<Rightarrow> str_int n)"

definition search_results :: "string \<Rightarrow> string list" where
  "search_results q =
     map (\<lambda>i. ''Result for '' @ [CHR 0x27] @ q @ [CHR 0x27] @ '' #'' @ str_int i) [0, 1, 2]"

text \<open>
  The end of \<open>rate_limited_search\<close>, from the count and the TTL that
  \<open>redis_client.ttl(rate_key)\<close> reports: the 429 when
  \<open>request_count > RATE_LIMIT\<close>, the response otherwise.
\<close>

definition search_reply :: "string \<Rightarrow> int \<Rightarrow> int option \<Rightarrow> error + search_response" where
  "search_reply q request_count ttl =
     (if request_count > RATE_LIMIT then
        Inl (HTTPException 429
              (''Rate limit exceeded. Try again in '' @ str_ttl ttl @ '' seconds.''))
      else
        Inr \<lparr>query = q, results = search_results q,
              requests_this_minute = request_count, limit = RATE_LIMIT,
              remaining = RATE_LIMIT - request_count, resets_in = ttl\<rparr>)"

definition rate_limited_search ::
  "string \<Rightarrow> string \<Rightarrow> redis \<Rightarrow> (error + search_response) \<times> redis" where
  "rate_limited_search client_ip q r =
     (let k = rate_key client_ip (clock r) in
      (case rate_count r k of
         (Inl e, r1) \<Rightarrow> (Inl e, r1)
       | (Inr request_count, r1) \<Rightarrow> (search_reply q request_count (redis_ttl r1 k), r1)))"

text \<open>
  The same client calling \<open>n\<close> times in immediate succession (no time passes between
  the calls), as the loop of the file's test commands does.
\<close>

fun search_repeatedly ::
  "nat \<Rightarrow> string \<Rightarrow> string \<Rightarrow> redis \<Rightarrow> (error + search_response) list \<times> redis" where
  "search_repeatedly 0 client_ip q r = ([], r)"
| "search_repeatedly (Suc n) client_ip q r =
     (case rate_limited_search client_ip q r of (out, r1) \<Rightarrow>
      (case search_repeatedly n client_ip q r1 of (outs, r2) \<Rightarrow> (out # outs, r2)))"

section \<open>Cache invalidation\<close>

text \<open>
  The loop of \<open>delete_product_with_cache_invalidation\<close>:
  \<open>for key in redis_client.scan_iter("products:list:*"): redis_client.delete(key);
  invalidated.append(key); count += 1\<close>, over the keys the scan yields.
\<close>

fun invalidate_loop ::
  "string list \<Rightarrow> redis \<Rightarrow> string list \<Rightarrow> int \<Rightarrow> redis \<times> string list \<times> int" where
  "invalidate_loop [] r invalidated count = (r, invalidated, count)"
| "invalidate_loop (key # keys) r invalidated count =
     invalidate_loop keys (snd (redis_delete r key)) (invalidated @ [key]) (count + 1)"

text \<open>
  The response holds the list \<open>invalidated\<close>; the local \<open>count\<close> is not part of it.
\<close>

record delete_response =
  cache_invalidated :: "string list"

definition delete_product_with_cache_invalidation ::
  "'d session \<Rightarrow> int \<Rightarrow> 'd \<times> redis \<Rightarrow> (error + delete_response) \<times> ('d \<times> redis)" where
  "delete_product_with_cache_invalidation db product_id s =
     (case s of (d, r) \<Rightarrow>
      (case query_first db d product_id of
         (Inl e, d1) \<Rightarrow> (Inl e, (d1, r))
       | (Inr None, d1) \<Rightarrow> (Inl (HTTPException 404 ''Product not found''), (d1, r))
       | (Inr (Some p), d1) \<Rightarrow>
           (case delete_commit db d1 p of
              (Inl e, d2) \<Rightarrow> (Inl e, (d2, r))
            | (Inr _, d2) \<Rightarrow>
                (case cache_delete r (product_key product_id) of (_, r1) \<Rightarrow>
                 (case invalidate_loop (redis_scan_iter r1 ''products:list:*'') r1
                         [product_key product_id] 0 of
                    (r2, invalidated, count) \<Rightarrow>
                      (Inr \<lparr>cache_invalidated = invalidated\<rparr>, (d2, r2)))))))"

section \<open>Sessions and call sequences to run the handlers on\<close>

text \<open>
  Two stand-ins for the database, used where a theorem is evaluated at a concrete
  input: a table of rows held in memory, seeded as the source's \<open>seed()\<close> does, and a
  database that is down. They take no part in the handlers above. The table's
  \<open>set_attr\<close> sets a column from a value of the column's type and leaves the row as
  it is otherwise.
\<close>

definition seed :: "product list" where
  "seed =
     [\<lparr>p_id = 1, p_name = ''MacBook Pro'', p_description = ''Apple laptop'',
       p_price = 199900, p_category = ''electronics''\<rparr>,
      \<lparr>p_id = 2, p_name = ''iPhone 15'', p_description = ''Apple phone'',
       p_price = 99900, p_category = ''electronics''\<rparr>,
      \<lparr>p_id = 3, p_name = ''Python Book'', p_description = ''Learn Python'',
       p_price = 3999, p_category = ''books''\<rparr>,
      \<lparr>p_id = 4, p_name = ''FastAPI Guide'', p_description = ''Learn FastAPI'',
       p_price = 2999, p_category = ''books''\<rparr>]"

fun set_attr :: "product \<Rightarrow> string \<times> pyval \<Rightarrow> product" where
  "set_attr p (k, PStr s) =
     (if k = ''name'' then p\<lparr>p_name := s\<rparr>
      else if k = ''description'' then p\<lparr>p_description := s\<rparr>
      else if k = ''category'' then p\<lparr>p_category := s\<rparr>
      else p)"
| "set_attr p (k, PInt n) =
     (if k = ''price'' then p\<lparr>p_price := n\<rparr>
      else if k = ''id'' then p\<lparr>p_id := n\<rparr>
      else p)"
| "set_attr p (k, v) = p"

definition table_session :: "product list session" where
  "table_session =
     \<lparr>query_first = (\<lambda>d i. (Inr (find (\<lambda>p. p_id p = i) d), d)),
      add_commit =
        (\<lambda>d b.
           let p = \<lparr>p_id = 1 + foldl max 0 (map p_id d), p_name = c_name b,
                    p_description = c_description b, p_price = c_price b,
                    p_category = c_category b\<rparr>
           in (Inr p, d @ [p])),
      update_commit =
        (\<lambda>d p ups.
           let p' = foldl set_attr p ups
           in (Inr p', map (\<lambda>x. if p_id x = p_id p then p' else x) d)),
      delete_commit = (\<lambda>d p. (Inr (), filter (\<lambda>x. p_id x \<noteq> p_id p) d))\<rparr>"

definition broken_session :: "unit session" where
  "broken_session =
     \<lparr>query_first = (\<lambda>d i. (Inl (DbError ''database is down''), d)),
      add_commit = (\<lambda>d b. (Inl (DbError ''database is down''), d)),
      update_commit = (\<lambda>d p ups. (Inl (DbError ''database is down''), d)),
      delete_commit = (\<lambda>d p. (Inl (DbError ''database is down''), d))\<rparr>"

text \<open>
  A session instrumented with a call counter: the database state is paired with the
  number of \<open>query_first\<close> calls made so far.
\<close>

definition counting :: "'d session \<Rightarrow> ('d \<times> nat) session" where
  "counting db =
     \<lparr>query_first =
        (\<lambda>dn i. case query_first db (fst dn) i of (res, d') \<Rightarrow> (res, (d', snd dn + 1))),
      add_commit =
        (\<lambda>dn b. case add_commit db (fst dn) b of (res, d') \<Rightarrow> (res, (d', snd dn))),
      update_commit =
        (\<lambda>dn p ups. case update_commit db (fst dn) p ups of (res, d') \<Rightarrow> (res, (d', snd dn))),
      delete_commit =
        (\<lambda>dn p. case delete_commit db (fst dn) p of (res, d') \<Rightarrow> (res, (d', snd dn)))\<rparr>"

text \<open>
  A sequence of cache-aside requests, for any product ids, with time passing in
  between.
\<close>

datatype step = Request int | Wait nat

fun cache_aside_run ::
  "'d session \<Rightarrow> step list \<Rightarrow> 'd \<times> redis \<Rightarrow> (error + aside_response) list \<times> ('d \<times> redis)" where
  "cache_aside_run db [] s = ([], s)"
| "cache_aside_run db (Request i # steps) s =
     (case get_product_cache_aside db i s of (out, s1) \<Rightarrow>
      (case cache_aside_run db steps s1 of (outs, s2) \<Rightarrow> (out # outs, s2)))"
| "cache_aside_run db (Wait t # steps) s =
     cache_aside_run db steps (fst s, elapse t (snd s))"

text \<open>Whether a response was served from the cache.\<close>

fun is_hit :: "error + aside_response \<Rightarrow> bool" where
  "is_hit (Inr resp) = cache_hit resp"
| "is_hit (Inl e) = False"

text \<open>
  A store to evaluate on: a product entry, a list entry that has expired (set for 300
  seconds, 301 seconds ago) and a list entry that is still live.
\<close>

definition demo_store :: redis where
  "demo_store =
     snd (cache_set
       (elapse 301
         (snd (cache_set
           (snd (cache_set fresh ''product:1'' (PInt 1) 3600))
           ''products:list:books:page1:limit10'' (PInt 2) 300)))
       ''products:list:all:page1:limit10'' (PInt 3) 300)"

text \<open>The body of the file's test request for the create handler.\<close>

definition new_product :: product_create where
  "new_product =
     \<lparr>c_name = ''New Product'', c_description = ''Test'', c_price = 999, c_category = ''test''\<rparr>"

text \<open>A sequence of visits: a product read twice, again after its entry has expired, and
  a product that is not in the table.\<close>

definition visits :: "step list" where
  "visits = [Request 1, Request 1, Wait 3601, Request 1, Request 9]"

text \<open>
  The invariant of the store under the cache-aside handler: every entry that has not
  expired holds a value that passes \<open>if cached:\<close>.
\<close>

definition all_truthy :: "redis \<Rightarrow> bool" where
  "all_truthy r = (\<forall>k e. lookup r k = Some e \<longrightarrow> truthy (json_loads (payload e)))"

section \<open>The JSON round trip\<close>

lemma update_fresh_key: "k \<notin> fst ` set d \<Longrightarrow> AList.update k v d = d @ [(k, v)]"
  by (induction d) auto

lemma dict_of_pairs_from:
  "distinct (map fst (d @ kvs)) \<Longrightarrow>
   foldl (\<lambda>d (k, v). AList.update k v d) d kvs = d @ kvs"
proof (induction kvs arbitrary: d)
  case Nil
  then show ?case by simp
next
  case (Cons kv kvs)
  obtain k v where kv: "kv = (k, v)" by (cases kv)
  have new: "k \<notin> fst ` set d" using Cons.prems kv by auto
  have "distinct (map fst ((d @ [(k, v)]) @ kvs))" using Cons.prems kv by simp
  from Cons.IH [OF this] show ?case
    by (simp add: kv update_fresh_key [OF new])
qed

lemma dict_of_pairs_distinct: "distinct (map fst kvs) \<Longrightarrow> dict_of_pairs kvs = kvs"
  using dict_of_pairs_from [of "[]" kvs] by (simp add: dict_of_pairs_def)

lemma str_key: "is_str_key k \<Longrightarrow> KStr (key_str k) = k"
  by (cases k) auto

lemma json_roundtrip: "json_native v \<Longrightarrow> json_loads (json_dumps v) = v"
proof (induction v)
  case (PList xs)
  then show ?case by (simp add: list_all_iff map_idI)
next
  case (PDict kvs)
  have each: "(\<lambda>(k, v). (KStr k, json_loads v)) ((\<lambda>(k, v). (key_str k, json_dumps v)) kv) = kv"
    if "kv \<in> set kvs" for kv
  proof -
    obtain k v where kv: "kv = (k, v)" by (cases kv)
    have "is_str_key k" "json_native v" using PDict.prems that kv by (auto simp: list_all_iff)
    moreover have "json_loads (json_dumps v) = v"
      using PDict.IH [of kv v] that kv \<open>json_native v\<close> by auto
    ultimately show ?thesis by (simp add: kv str_key)
  qed
  have "map (\<lambda>(k, v). (KStr k, json_loads v)) (map (\<lambda>(k, v). (key_str k, json_dumps v)) kvs) = kvs"
    using each by (simp add: map_idI o_def)
  then show ?case using PDict.prems by (simp add: dict_of_pairs_distinct)
qed simp_all

lemma json_loads_none: "json_loads (json_dumps v) = PNone \<longleftrightarrow> v = PNone"
  by (cases v) auto

lemma native_product_data: "json_native (product_data p)"
  by (simp add: product_data_def)

lemma roundtrip_product_data: "json_loads (json_dumps (product_data p)) = product_data p"
  by (rule json_roundtrip [OF native_product_data])

section \<open>Basic facts about the store\<close>

lemma lookup_fresh: "lookup fresh k = None"
  by (simp add: lookup_def fresh_def)

lemma redis_get_lookup: "fst (redis_get r k) = map_option payload (lookup r k)"
  by (simp add: redis_get_def lookup_def split: option.splits)

lemma cache_get_miss: "lookup r k = None \<Longrightarrow> fst (cache_get r k) = PNone"
  by (auto simp: cache_get_def redis_get_def lookup_def split: option.splits if_splits)

lemma cache_get_hit: "lookup r k = Some e \<Longrightarrow> cache_get r k = (json_loads (payload e), r)"
  by (auto simp: cache_get_def redis_get_def lookup_def split: option.splits if_splits)

lemma lookup_setex:
  "0 < ttl \<Longrightarrow>
   lookup (snd (redis_setex r k ttl v)) k' =
     (if k' = k then Some \<lparr>payload = v, expires_at = Some (int (clock r) + ttl)\<rparr>
      else lookup r k')"
  by (auto simp: redis_setex_def lookup_def live_def update_conv' split: option.splits)

section \<open>The cache helpers\<close>

text \<open>
  C1, as amended. For every key, every value that \<open>json.dumps\<close> accepts and every
  \<open>ttl > 0\<close>, \<open>cache_set\<close> succeeds and \<open>cache_get\<close> of the same key right after
  it returns \<open>json.loads(json.dumps(value))\<close>: that is the value itself whenever the
  value holds no tuple and no dict key other than a string. On a key that is absent (or
  expired) \<open>cache_get\<close> returns \<open>None\<close> and the key stays absent; and the two
  results differ whenever the stored value is not \<open>None\<close>.
\<close>

theorem cache_set_then_get:
  "(0 < ttl \<longrightarrow>
      fst (cache_set r k v ttl) = Inr PNone \<and>
      fst (cache_get (snd (cache_set r k v ttl)) k) = json_loads (json_dumps v))
   \<and> (0 < ttl \<and> json_native v \<longrightarrow>
      fst (cache_get (snd (cache_set r k v ttl)) k) = v)
   \<and> (lookup r' k' = None \<longrightarrow>
        fst (cache_get r' k') = PNone \<and> lookup (snd (cache_get r' k')) k' = None)
   \<and> (0 < ttl \<and> v \<noteq> PNone \<and> lookup r' k' = None \<longrightarrow>
        fst (cache_get (snd (cache_set r k v ttl)) k) \<noteq> fst (cache_get r' k'))"
proof -
  have hit: "fst (cache_get (snd (cache_set r k v ttl)) k) = json_loads (json_dumps v)"
    if "0 < ttl"
    using that
    by (simp add: cache_set_def cache_get_def redis_setex_def redis_get_def live_def update_conv')
  have ok: "fst (cache_set r k v ttl) = Inr PNone" if "0 < ttl"
    using that by (simp add: cache_set_def redis_setex_def)
  have same: "json_loads (json_dumps v) = v" if "json_native v"
    using that by (rule json_roundtrip)
  have miss: "fst (cache_get r' k') = PNone" if "lookup r' k' = None"
    using that by (rule cache_get_miss)
  have after: "lookup (snd (cache_get r' k')) k' = None" if "lookup r' k' = None"
    using that
    by (auto simp: cache_get_def redis_get_def lookup_def delete_conv' split: option.splits if_splits)
  show ?thesis
    using hit ok same miss after json_loads_none [of v] by auto
qed

theorem cache_set_then_get_witness:
  "(0::int) < 3600 \<and>
   json_native (PDict [(KStr ''id'', PInt 1), (KStr ''tags'', PList [PStr ''a'', PNone])]) \<and>
   fst (cache_get (snd (cache_set fresh ''product:1''
          (PDict [(KStr ''id'', PInt 1), (KStr ''tags'', PList [PStr ''a'', PNone])]) 3600))
          ''product:1'')
     = PDict [(KStr ''id'', PInt 1), (KStr ''tags'', PList [PStr ''a'', PNone])] \<and>
   lookup fresh ''product:2'' = None \<and>
   fst (cache_get fresh ''product:2'') = PNone \<and>
   fst (cache_get (snd (cache_set fresh ''product:1''
          (PDict [(KStr ''id'', PInt 1), (KStr ''tags'', PList [PStr ''a'', PNone])]) 3600))
          ''product:1'')
     \<noteq> fst (cache_get fresh ''product:2'')"
  using cache_set_then_get
    [of 3600 fresh "''product:1''"
      "PDict [(KStr ''id'', PInt 1), (KStr ''tags'', PList [PStr ''a'', PNone])]"
      fresh "''product:2''"]
  by (simp add: lookup_fresh dict_of_pairs_def)

text \<open>
  C1 as stated fails at two values that \<open>json.dumps\<close> accepts. The value \<open>None\<close>
  comes back as the very result of a miss; and the dict \<open>{1: "a"}\<close> comes back as
  \<open>{"1": "a"}\<close>, the tuple \<open>(1, 2)\<close> as the list \<open>[1, 2]\<close>, so what
  \<open>cache_get\<close> returns is not the value that was set.
\<close>

theorem hit_is_miss_or_changed:
  "fst (cache_get (snd (cache_set fresh ''k'' PNone 300)) ''k'') = fst (cache_get fresh ''k'') \<and>
   fst (cache_get (snd (cache_set fresh ''k'' (PDict [(KInt 1, PStr ''a'')]) 300)) ''k'')
     = PDict [(KStr ''1'', PStr ''a'')] \<and>
   PDict [(KStr ''1'', PStr ''a'')] \<noteq> PDict [(KInt 1, PStr ''a'')] \<and>
   fst (cache_get (snd (cache_set fresh ''k'' (PTuple [PInt 1, PInt 2]) 300)) ''k'')
     = PList [PInt 1, PInt 2] \<and>
   PList [PInt 1, PInt 2] \<noteq> PTuple [PInt 1, PInt 2]"
  by (simp add: cache_set_def cache_get_def redis_setex_def redis_get_def live_def fresh_def
      dict_of_pairs_def str_int_def str_nat.simps digit_char_def)

text \<open>
  C9. For every key and value, \<open>cache_set\<close> with a \<open>ttl\<close> of zero or less ends in the
  error \<open>InvalidTTL\<close>: the TTL is handed to the store as it is, and the store is left
  as it was.
\<close>

theorem cache_set_invalid_ttl:
  "ttl \<le> 0 \<Longrightarrow> cache_set r k v ttl = (Inl InvalidTTL, r)"
  by (simp add: cache_set_def redis_setex_def)

theorem cache_set_invalid_ttl_witness:
  "(0::int) \<le> 0 \<and> cache_set fresh ''product:1'' (PInt 5) 0 = (Inl InvalidTTL, fresh) \<and>
   (-5::int) \<le> 0 \<and> cache_set fresh ''product:1'' (PInt 5) (-5) = (Inl InvalidTTL, fresh) \<and>
   fst (cache_get fresh ''product:1'') = PNone"
  using cache_set_invalid_ttl [of 0 fresh "''product:1''" "PInt 5"]
    cache_set_invalid_ttl [of "-5" fresh "''product:1''" "PInt 5"]
  by (simp add: cache_get_miss lookup_fresh)

text \<open>
  C8, as amended. For every key and store, \<open>cache_delete\<close> returns \<open>None\<close>, whether
  or not a key was removed; afterwards the key is absent, a second \<open>cache_delete\<close>
  changes nothing, and every other key is as before. It never raises. The count of
  removed keys (1, or 0 for an absent key and for a second delete) is the result of the
  client's \<open>delete\<close>, which \<open>cache_delete\<close> drops.
\<close>

theorem cache_delete_returns_none:
  "fst (cache_delete r k) = PNone
   \<and> lookup (snd (cache_delete r k)) k = None
   \<and> cache_delete (snd (cache_delete r k)) k = (PNone, snd (cache_delete r k))
   \<and> (\<forall>k'. k' \<noteq> k \<longrightarrow> lookup (snd (cache_delete r k)) k' = lookup r k')
   \<and> fst (redis_delete r k) = (if lookup r k = None then 0 else 1)
   \<and> fst (redis_delete (snd (redis_delete r k)) k) = 0"
  by (auto simp: cache_delete_def redis_delete_def lookup_def delete_conv' delete_idem
      split: option.splits if_splits)

theorem cache_delete_returns_none_witness:
  "fst (cache_delete (snd (cache_set fresh ''product:1'' (PInt 7) 60)) ''product:1'') = PNone \<and>
   ''product:2'' \<noteq> ''product:1'' \<and>
   lookup (snd (cache_delete (snd (cache_set fresh ''product:1'' (PInt 7) 60)) ''product:1''))
       ''product:2''
     = lookup (snd (cache_set fresh ''product:1'' (PInt 7) 60)) ''product:2'' \<and>
   fst (redis_delete (snd (cache_set fresh ''product:1'' (PInt 7) 60)) ''product:1'') = 1 \<and>
   fst (redis_delete fresh ''product:1'') = 0"
  using cache_delete_returns_none
      [of "snd (cache_set fresh ''product:1'' (PInt 7) 60)" "''product:1''"]
    cache_delete_returns_none [of fresh "''product:1''"]
  by (simp add: lookup_fresh cache_set_def redis_setex_def lookup_def live_def fresh_def)

text \<open>
  C8 as stated fails where a key is removed: the key was there, it is gone, and the
  result of \<open>cache_delete\<close> is not true.
\<close>

theorem cache_delete_not_true:
  "lookup (snd (cache_set fresh ''product:1'' (PInt 7) 60)) ''product:1'' \<noteq> None \<and>
   lookup (snd (cache_delete (snd (cache_set fresh ''product:1'' (PInt 7) 60)) ''product:1''))
       ''product:1'' = None \<and>
   \<not> truthy (fst (cache_delete (snd (cache_set fresh ''product:1'' (PInt 7) 60)) ''product:1''))"
  by (simp add: cache_delete_def redis_delete_def cache_set_def redis_setex_def lookup_def
      live_def fresh_def)

lemma lookup_cong:
  "map_of (entries r') k = map_of (entries r) k \<Longrightarrow> clock r' = clock r \<Longrightarrow>
   lookup r' k = lookup r k"
  by (simp add: lookup_def split: option.splits)

lemma demo_store_entries:
  "demo_store = \<lparr>entries =
      [(''product:1'', \<lparr>payload = JInt 1, expires_at = Some 3600\<rparr>),
       (''products:list:books:page1:limit10'', \<lparr>payload = JInt 2, expires_at = Some 300\<rparr>),
       (''products:list:all:page1:limit10'', \<lparr>payload = JInt 3, expires_at = Some 601\<rparr>)],
     clock = 301\<rparr>"
  by (simp add: demo_store_def cache_set_def redis_setex_def fresh_def elapse_def)

section \<open>Deleting by pattern\<close>

lemma redis_delete_entries:
  "map_of (entries (snd (redis_delete r k))) = (map_of (entries r))(k := None)"
  by (auto simp: redis_delete_def delete_conv' split: option.splits)

lemma redis_delete_clock: "clock (snd (redis_delete r k)) = clock r"
  by (simp add: redis_delete_def split: option.splits)

lemma delete_all_entries:
  "map_of (entries (foldl (\<lambda>r' key. snd (redis_delete r' key)) r ks)) k =
     (if k \<in> set ks then None else map_of (entries r) k)"
  by (induction ks arbitrary: r) (auto simp: redis_delete_entries)

lemma delete_all_clock:
  "clock (foldl (\<lambda>r' key. snd (redis_delete r' key)) r ks) = clock r"
  by (induction ks arbitrary: r) (auto simp: redis_delete_clock)

lemma scan_iter_set:
  "set (redis_scan_iter r pat) = {k. glob_match pat k \<and> lookup r k \<noteq> None}"
  by (auto simp: redis_scan_iter_def lookup_def map_of_eq_None_iff image_iff split: option.splits)

lemma scan_iter_distinct:
  "distinct (map fst (entries r)) \<Longrightarrow> distinct (redis_scan_iter r pat)"
  by (simp add: redis_scan_iter_def)

lemma lookup_delete_pattern:
  "lookup (snd (cache_delete_pattern r pat)) k = (if glob_match pat k then None else lookup r k)"
  by (auto simp: cache_delete_pattern_def lookup_def delete_all_entries delete_all_clock
      scan_iter_set split: option.splits)

lemma entries_delete_pattern:
  "\<not> glob_match pat k \<Longrightarrow>
   map_of (entries (snd (cache_delete_pattern r pat))) k = map_of (entries r) k"
  by (simp add: cache_delete_pattern_def delete_all_entries scan_iter_set)

lemma clock_delete_pattern: "clock (snd (cache_delete_pattern r pat)) = clock r"
  by (simp add: cache_delete_pattern_def delete_all_clock)

lemma invalidate_loop_eq:
  "invalidate_loop ks r acc c =
     (foldl (\<lambda>r' key. snd (redis_delete r' key)) r ks, acc @ ks, c + int (length ks))"
  by (induction ks arbitrary: r acc c) auto

lemma not_list_key: "\<not> glob_match ''products:list:*'' (product_key i)"
  by (simp add: product_key_def)

lemma demo_store_scan:
  "redis_scan_iter demo_store ''products:list:*'' = [''products:list:all:page1:limit10'']"
  by (simp add: demo_store_entries redis_scan_iter_def lookup_def live_def)

text \<open>
  C7, as amended. For every pattern and store, \<open>cache_delete_pattern\<close> removes
  exactly the keys that match and have not expired: afterwards a matching key is absent
  and every other key is as it was, its entry untouched. It returns \<open>None\<close>. The loop
  of \<open>delete_product_with_cache_invalidation\<close> ends in the same store, and its local
  \<open>count\<close> has grown by the number of matching keys that had not expired, so an
  expired entry is not counted; the keys are appended to \<open>invalidated\<close>.
\<close>

theorem cache_delete_pattern_effect:
  "fst (cache_delete_pattern r pat) = PNone
   \<and> lookup (snd (cache_delete_pattern r pat)) k = (if glob_match pat k then None else lookup r k)
   \<and> (\<not> glob_match pat k \<longrightarrow>
        map_of (entries (snd (cache_delete_pattern r pat))) k = map_of (entries r) k)
   \<and> (distinct (map fst (entries r)) \<longrightarrow>
        invalidate_loop (redis_scan_iter r pat) r acc c =
          (snd (cache_delete_pattern r pat), acc @ redis_scan_iter r pat,
           c + int (card {k. glob_match pat k \<and> lookup r k \<noteq> None})))"
proof -
  have ret: "fst (cache_delete_pattern r pat) = PNone"
    by (simp add: cache_delete_pattern_def)
  have len: "length (redis_scan_iter r pat) = card {k. glob_match pat k \<and> lookup r k \<noteq> None}"
    if "distinct (map fst (entries r))"
    using scan_iter_distinct [OF that, of pat] scan_iter_set [of r pat]
    by (metis distinct_card)
  have loop: "invalidate_loop (redis_scan_iter r pat) r acc c =
      (snd (cache_delete_pattern r pat), acc @ redis_scan_iter r pat,
       c + int (length (redis_scan_iter r pat)))"
    by (simp add: invalidate_loop_eq cache_delete_pattern_def)
  show ?thesis
    using ret len loop lookup_delete_pattern [of r pat k] entries_delete_pattern [of pat k r]
    by simp
qed

theorem cache_delete_pattern_effect_witness:
  "glob_match ''products:list:*'' ''products:list:all:page1:limit10'' \<and>
   lookup demo_store ''products:list:all:page1:limit10'' \<noteq> None \<and>
   lookup (snd (cache_delete_pattern demo_store ''products:list:*''))
       ''products:list:all:page1:limit10'' = None \<and>
   \<not> glob_match ''products:list:*'' ''product:1'' \<and>
   map_of (entries (snd (cache_delete_pattern demo_store ''products:list:*''))) ''product:1''
     = map_of (entries demo_store) ''product:1'' \<and>
   distinct (map fst (entries demo_store)) \<and>
   lookup demo_store ''products:list:books:page1:limit10'' = None \<and>
   invalidate_loop (redis_scan_iter demo_store ''products:list:*'') demo_store
       [''product:1''] 0 =
     (snd (cache_delete_pattern demo_store ''products:list:*''),
      [''product:1'', ''products:list:all:page1:limit10''], 1)"
  using cache_delete_pattern_effect
      [of demo_store "''products:list:*''" "''products:list:all:page1:limit10''"
        "[''product:1'']" 0]
    cache_delete_pattern_effect
      [of demo_store "''products:list:*''" "''product:1''" "[''product:1'']" 0]
  by (simp add: scan_iter_set [symmetric] demo_store_scan)
    (simp add: demo_store_entries lookup_def live_def)

text \<open>
  C7 as stated fails on the result: one key is removed, and \<open>cache_delete_pattern\<close>
  returns \<open>None\<close>, not the number 1.
\<close>

theorem cache_delete_pattern_returns_none:
  "redis_scan_iter demo_store ''products:list:*'' = [''products:list:all:page1:limit10''] \<and>
   lookup demo_store ''products:list:all:page1:limit10'' \<noteq> None \<and>
   lookup (snd (cache_delete_pattern demo_store ''products:list:*''))
       ''products:list:all:page1:limit10'' = None \<and>
   fst (cache_delete_pattern demo_store ''products:list:*'') \<noteq> PInt 1"
  by (simp add: demo_store_scan cache_delete_pattern_def redis_delete_def)
    (simp add: demo_store_entries lookup_def live_def)

section \<open>Write through and the list caches\<close>

lemma cache_get_lookup:
  "fst (cache_get r k) =
     (case lookup r k of None \<Rightarrow> PNone | Some e \<Rightarrow> json_loads (payload e))"
  by (auto simp: cache_get_def redis_get_def lookup_def split: option.splits)

lemma cache_set_positive:
  "0 < ttl \<Longrightarrow>
   cache_set r k v ttl =
     (Inr PNone,
      r\<lparr>entries :=
          AList.update k \<lparr>payload = json_dumps v, expires_at = Some (int (clock r) + ttl)\<rparr>
            (entries r)\<rparr>)"
  by (simp add: cache_set_def redis_setex_def)

lemma lookup_elapse_cong:
  "map_of (entries r') k = map_of (entries r) k \<Longrightarrow> clock r' = clock r \<Longrightarrow>
   lookup (elapse t r') k = lookup (elapse t r) k"
  by (simp add: lookup_def elapse_def split: option.splits)

lemma update_success:
  assumes "update_product_write_through db i ups (d, r) = (Inr resp, (d', r'))"
  shows "clock r' = clock r"
    and "k \<noteq> product_key i \<Longrightarrow> map_of (entries r') k = map_of (entries r) k"
  using assms
  by (auto simp: update_product_write_through_def cache_set_positive update_conv'
      split: prod.splits sum.splits option.splits)

lemma create_success:
  assumes "create_product_write_through db body (d, r) = (Inr resp, (d', r'))"
  shows "\<exists>p r1. r' = snd (cache_delete_pattern r1 ''products:list:*'') \<and>
     r1 = snd (cache_set r (product_key (p_id p)) (product_data p) 3600) \<and>
     add_commit db d body = (Inr p, d')"
  using assms
  by (auto simp: create_product_write_through_def cache_set_positive
      split: prod.splits sum.splits option.splits)

lemma delete_success:
  assumes "delete_product_with_cache_invalidation db i (d, r) = (Inr resp, (d', r'))"
  shows "r' = snd (cache_delete_pattern (snd (cache_delete r (product_key i))) ''products:list:*'')"
  using assms
  by (auto simp: delete_product_with_cache_invalidation_def invalidate_loop_eq
      cache_delete_pattern_def
      split: prod.splits sum.splits option.splits)

lemma Inr_result:
  "\<not> isl (fst x) \<Longrightarrow> \<exists>resp. x = (Inr resp, (fst (snd x), snd (snd x)))"
  by (cases x; cases "fst x") auto

text \<open>
  C2. Write through: when the writer fails (\<open>add_commit\<close> in the create handler,
  \<open>update_commit\<close> in the update handler), the handler ends in that error and the
  store is the one it started with; the same holds when the update handler's query
  fails or finds no row. Only when the writer has succeeded does the handler call
  \<open>cache_set\<close>: then it answers with the written row, and the product's key holds
  that row with a TTL of 3600 seconds.
\<close>

theorem write_through_writer_failure:
  "(add_commit db d body = (Inl e, d1) \<longrightarrow>
      create_product_write_through db body (d, r) = (Inl e, (d1, r)))
   \<and> (query_first db d i = (Inr (Some p), d1) \<and> update_commit db d1 p ups = (Inl e, d2) \<longrightarrow>
      update_product_write_through db i ups (d, r) = (Inl e, (d2, r)))
   \<and> (query_first db d i = (Inl e, d1) \<longrightarrow>
      update_product_write_through db i ups (d, r) = (Inl e, (d1, r)))
   \<and> (query_first db d i = (Inr None, d1) \<longrightarrow>
      update_product_write_through db i ups (d, r) =
        (Inl (HTTPException 404 ''Product not found''), (d1, r)))
   \<and> (add_commit db d body = (Inr p, d1) \<longrightarrow>
      fst (create_product_write_through db body (d, r)) =
        Inr \<lparr>written = product_data p, cache_updated = True\<rparr> \<and>
      fst (snd (create_product_write_through db body (d, r))) = d1 \<and>
      lookup (snd (snd (create_product_write_through db body (d, r)))) (product_key (p_id p)) =
        Some \<lparr>payload = json_dumps (product_data p), expires_at = Some (int (clock r) + 3600)\<rparr>)
   \<and> (query_first db d i = (Inr (Some p), d1) \<and> update_commit db d1 p ups = (Inr p', d2) \<longrightarrow>
      fst (update_product_write_through db i ups (d, r)) =
        Inr \<lparr>written = product_data p', cache_updated = True\<rparr> \<and>
      fst (snd (update_product_write_through db i ups (d, r))) = d2 \<and>
      lookup (snd (snd (update_product_write_through db i ups (d, r)))) (product_key i) =
        Some \<lparr>payload = json_dumps (product_data p'), expires_at = Some (int (clock r) + 3600)\<rparr>)"
proof -
  have 1: "create_product_write_through db body (d, r) = (Inl e, (d1, r))"
    if "add_commit db d body = (Inl e, d1)"
    using that by (simp add: create_product_write_through_def)
  have 2: "update_product_write_through db i ups (d, r) = (Inl e, (d2, r))"
    if "query_first db d i = (Inr (Some p), d1)" "update_commit db d1 p ups = (Inl e, d2)"
    using that by (simp add: update_product_write_through_def)
  have 3: "update_product_write_through db i ups (d, r) = (Inl e, (d1, r))"
    if "query_first db d i = (Inl e, d1)"
    using that by (simp add: update_product_write_through_def)
  have 4: "update_product_write_through db i ups (d, r) =
        (Inl (HTTPException 404 ''Product not found''), (d1, r))"
    if "query_first db d i = (Inr None, d1)"
    using that by (simp add: update_product_write_through_def)
  have 5: "fst (create_product_write_through db body (d, r)) =
        Inr \<lparr>written = product_data p, cache_updated = True\<rparr> \<and>
      fst (snd (create_product_write_through db body (d, r))) = d1 \<and>
      lookup (snd (snd (create_product_write_through db body (d, r)))) (product_key (p_id p)) =
        Some \<lparr>payload = json_dumps (product_data p), expires_at = Some (int (clock r) + 3600)\<rparr>"
    if a: "add_commit db d body = (Inr p, d1)"
  proof -
    let ?r1 = "snd (cache_set r (product_key (p_id p)) (product_data p) 3600)"
    have c: "create_product_write_through db body (d, r) =
        (Inr \<lparr>written = product_data p, cache_updated = True\<rparr>,
         (d1, snd (cache_delete_pattern ?r1 ''products:list:*'')))"
      using a by (simp add: create_product_write_through_def cache_set_positive split: prod.splits)
    have l: "lookup ?r1 (product_key (p_id p)) =
        Some \<lparr>payload = json_dumps (product_data p), expires_at = Some (int (clock r) + 3600)\<rparr>"
      by (simp add: cache_set_positive lookup_def live_def update_conv')
    show ?thesis using l by (simp add: c lookup_delete_pattern not_list_key)
  qed
  have 6: "fst (update_product_write_through db i ups (d, r)) =
        Inr \<lparr>written = product_data p', cache_updated = True\<rparr> \<and>
      fst (snd (update_product_write_through db i ups (d, r))) = d2 \<and>
      lookup (snd (snd (update_product_write_through db i ups (d, r)))) (product_key i) =
        Some \<lparr>payload = json_dumps (product_data p'), expires_at = Some (int (clock r) + 3600)\<rparr>"
    if a: "query_first db d i = (Inr (Some p), d1)" "update_commit db d1 p ups = (Inr p', d2)"
  proof -
    let ?r1 = "snd (cache_set r (product_key i) (product_data p') 3600)"
    have c: "update_product_write_through db i ups (d, r) =
        (Inr \<lparr>written = product_data p', cache_updated = True\<rparr>, (d2, ?r1))"
      using a by (simp add: update_product_write_through_def cache_set_positive)
    have l: "lookup ?r1 (product_key i) =
        Some \<lparr>payload = json_dumps (product_data p'), expires_at = Some (int (clock r) + 3600)\<rparr>"
      by (simp add: cache_set_positive lookup_def live_def update_conv')
    show ?thesis using l by (simp add: c)
  qed
  show ?thesis using 1 2 3 4 5 6 by blast
qed

theorem write_through_writer_failure_witness:
  "add_commit broken_session () new_product = (Inl (DbError ''database is down''), ()) \<and>
   create_product_write_through broken_session new_product ((), demo_store)
     = (Inl (DbError ''database is down''), ((), demo_store)) \<and>
   query_first table_session seed 1 = (Inr (Some (hd seed)), seed) \<and>
   update_commit table_session seed (hd seed) [(''price'', PInt 5)]
     = (Inr ((hd seed)\<lparr>p_price := 5\<rparr>), (hd seed)\<lparr>p_price := 5\<rparr> # tl seed) \<and>
   query_first table_session seed 9 = (Inr None, seed) \<and>
   update_product_write_through table_session 9 [] (seed, demo_store)
     = (Inl (HTTPException 404 ''Product not found''), (seed, demo_store)) \<and>
   lookup (snd (snd (update_product_write_through table_session 1 [(''price'', PInt 5)]
       (seed, demo_store)))) (product_key 1)
     = Some \<lparr>payload = json_dumps (product_data ((hd seed)\<lparr>p_price := 5\<rparr>)),
             expires_at = Some (int (clock demo_store) + 3600)\<rparr>"
proof -
  have a: "add_commit broken_session () new_product = (Inl (DbError ''database is down''), ())"
    by (simp add: broken_session_def)
  have q: "query_first table_session seed 1 = (Inr (Some (hd seed)), seed)"
    by code_simp
  have u: "update_commit table_session seed (hd seed) [(''price'', PInt 5)]
     = (Inr ((hd seed)\<lparr>p_price := 5\<rparr>), (hd seed)\<lparr>p_price := 5\<rparr> # tl seed)"
    by code_simp
  have n: "query_first table_session seed 9 = (Inr None, seed)"
    by code_simp
  show ?thesis
    using a q u n
      write_through_writer_failure
        [of broken_session "()" new_product "DbError ''database is down''" "()" demo_store]
      write_through_writer_failure
        [of table_session seed _ _ seed demo_store 9]
      write_through_writer_failure
        [of table_session seed _ _ seed demo_store 1 "hd seed" "[(''price'', PInt 5)]"
          "(hd seed)\<lparr>p_price := 5\<rparr> # tl seed" "(hd seed)\<lparr>p_price := 5\<rparr>"]
    by simp
qed

text \<open>
  C10. After \<open>update_product_write_through\<close> has succeeded, every key that matches
  \<open>products:list:*\<close> holds the entry it held before, and the clock has not moved: at
  any later time \<open>cache_get\<close> of such a key returns what it would have returned
  without the update, so a cached list is served with the pre-update data until its TTL
  expires. The create and the delete handler, when they succeed, leave no such key in
  the store.
\<close>

theorem update_keeps_list_caches:
  "(update_product_write_through db i ups (d, r) = (Inr resp, (d', r')) \<and>
    glob_match ''products:list:*'' k \<longrightarrow>
      map_of (entries r') k = map_of (entries r) k \<and> clock r' = clock r \<and>
      fst (cache_get (elapse t r') k) = fst (cache_get (elapse t r) k))
   \<and> (create_product_write_through db body (d, r) = (Inr resp, (d', r')) \<and>
      glob_match ''products:list:*'' k \<longrightarrow> lookup r' k = None)
   \<and> (delete_product_with_cache_invalidation db i (d, r) = (Inr gone, (d', r')) \<and>
      glob_match ''products:list:*'' k \<longrightarrow> lookup r' k = None)"
proof (intro conjI impI; elim conjE)
  assume a: "update_product_write_through db i ups (d, r) = (Inr resp, (d', r'))"
    and g: "glob_match ''products:list:*'' k"
  from g have ne: "k \<noteq> product_key i" using not_list_key by auto
  show e: "map_of (entries r') k = map_of (entries r) k" using update_success(2) [OF a ne] .
  show c: "clock r' = clock r" using update_success(1) [OF a] .
  show "fst (cache_get (elapse t r') k) = fst (cache_get (elapse t r) k)"
    by (simp add: cache_get_lookup lookup_elapse_cong [OF e c])
next
  assume a: "create_product_write_through db body (d, r) = (Inr resp, (d', r'))"
    and g: "glob_match ''products:list:*'' k"
  from create_success [OF a] g show "lookup r' k = None"
    by (auto simp: lookup_delete_pattern)
next
  assume a: "delete_product_with_cache_invalidation db i (d, r) = (Inr gone, (d', r'))"
    and g: "glob_match ''products:list:*'' k"
  from delete_success [OF a] g show "lookup r' k = None"
    by (simp add: lookup_delete_pattern)
qed

theorem update_keeps_list_caches_witness:
  "\<not> isl (fst (update_product_write_through table_session 1 [(''price'', PInt 5)]
            (seed, demo_store))) \<and>
   glob_match ''products:list:*'' ''products:list:all:page1:limit10'' \<and>
   map_of (entries (snd (snd (update_product_write_through table_session 1 [(''price'', PInt 5)]
            (seed, demo_store))))) ''products:list:all:page1:limit10''
     = map_of (entries demo_store) ''products:list:all:page1:limit10'' \<and>
   fst (cache_get (elapse 100 (snd (snd (update_product_write_through table_session 1
            [(''price'', PInt 5)] (seed, demo_store))))) ''products:list:all:page1:limit10'')
     = PInt 3 \<and>
   \<not> isl (fst (create_product_write_through table_session new_product (seed, demo_store))) \<and>
   lookup (snd (snd (create_product_write_through table_session new_product (seed, demo_store))))
       ''products:list:all:page1:limit10'' = None \<and>
   \<not> isl (fst (delete_product_with_cache_invalidation table_session 1 (seed, demo_store))) \<and>
   lookup (snd (snd (delete_product_with_cache_invalidation table_session 1 (seed, demo_store))))
       ''products:list:all:page1:limit10'' = None"
proof -
  let ?k = "''products:list:all:page1:limit10''"
  let ?U = "update_product_write_through table_session 1 [(''price'', PInt 5)] (seed, demo_store)"
  let ?C = "create_product_write_through table_session new_product (seed, demo_store)"
  let ?D = "delete_product_with_cache_invalidation table_session 1 (seed, demo_store)"
  have u: "\<not> isl (fst ?U)" by code_simp
  have c: "\<not> isl (fst ?C)" by code_simp
  have x: "\<not> isl (fst ?D)" by code_simp
  obtain resp1 where u': "?U = (Inr resp1, (fst (snd ?U), snd (snd ?U)))"
    using Inr_result [OF u] by blast
  obtain resp2 where c': "?C = (Inr resp2, (fst (snd ?C), snd (snd ?C)))"
    using Inr_result [OF c] by blast
  obtain resp3 where x': "?D = (Inr resp3, (fst (snd ?D), snd (snd ?D)))"
    using Inr_result [OF x] by blast
  have g: "glob_match ''products:list:*'' ?k" by simp
  have v: "fst (cache_get (elapse 100 demo_store) ?k) = PInt 3" by code_simp
  have 1: "map_of (entries (snd (snd ?U))) ?k = map_of (entries demo_store) ?k \<and>
      fst (cache_get (elapse 100 (snd (snd ?U))) ?k) = fst (cache_get (elapse 100 demo_store) ?k)"
    using update_keeps_list_caches
      [of table_session 1 "[(''price'', PInt 5)]" seed demo_store resp1 "fst (snd ?U)"
        "snd (snd ?U)" ?k 100] u' g
    by simp
  have 2: "lookup (snd (snd ?C)) ?k = None"
    using update_keeps_list_caches
      [of table_session _ _ seed demo_store resp2 "fst (snd ?C)" "snd (snd ?C)" ?k _ new_product]
      c' g
    by simp
  have 3: "lookup (snd (snd ?D)) ?k = None"
    using update_keeps_list_caches
      [of table_session 1 _ seed demo_store _ "fst (snd ?D)" "snd (snd ?D)" ?k _ _ resp3]
      x' g
    by simp
  show ?thesis using u c x g v 1 2 3 by simp
qed

section \<open>The rate limiter\<close>

lemma lookup_update_same:
  "live (clock r) e \<Longrightarrow> lookup (r\<lparr>entries := AList.update k e (entries r)\<rparr>) k = Some e"
  by (simp add: lookup_def update_conv')

lemma lookup_update_other:
  "k' \<noteq> k \<Longrightarrow> lookup (r\<lparr>entries := AList.update k e (entries r)\<rparr>) k' = lookup r k'"
  by (simp add: lookup_def update_conv' split: option.splits)

lemma lookup_live: "lookup r k = Some e \<Longrightarrow> live (clock r) e"
  by (auto simp: lookup_def split: option.splits if_splits)

lemma rate_count_first:
  assumes "lookup r k = None"
  shows "fst (rate_count r k) = Inr 1"
    and "lookup (snd (rate_count r k)) k =
           Some \<lparr>payload = JInt 1, expires_at = Some (int (clock r) + 60)\<rparr>"
    and "clock (snd (rate_count r k)) = clock r"
  using assms
  by (simp_all add: rate_count_def redis_incr_def redis_expire_def lookup_def live_def
      update_conv')

lemma redis_expire_live:
  "lookup r k = Some e \<Longrightarrow> 0 < ttl \<Longrightarrow>
   redis_expire r k ttl =
     (Inr 1, r\<lparr>entries := AList.update k (e\<lparr>expires_at := Some (int (clock r) + ttl)\<rparr>)
                (entries r)\<rparr>)"
  by (simp add: redis_expire_def)

lemma rate_count_next:
  assumes "lookup r k = Some e" "payload e = JInt n" "- (2 ^ 63) \<le> n" "n + 1 < 2 ^ 63"
  shows "fst (rate_count r k) = Inr (n + 1)"
    and "lookup (snd (rate_count r k)) k =
           Some \<lparr>payload = JInt (n + 1),
                 expires_at = (if n + 1 = 1 then Some (int (clock r) + 60) else expires_at e)\<rparr>"
    and "clock (snd (rate_count r k)) = clock r"
proof -
  have l: "live (clock r) e" using assms(1) by (rule lookup_live)
  define e1 where "e1 = e\<lparr>payload := JInt (n + 1)\<rparr>"
  define r1 where "r1 = r\<lparr>entries := AList.update k e1 (entries r)\<rparr>"
  have i: "redis_incr r k = (Inr (n + 1), r1)"
    using assms by (simp add: redis_incr_def r1_def e1_def)
  have l1: "lookup r1 k = Some e1"
    using l by (simp add: r1_def e1_def lookup_def update_conv' live_def)
  have c1: "clock r1 = clock r" by (simp add: r1_def)
  have x: "redis_expire r1 k 60 =
      (Inr 1, r1\<lparr>entries := AList.update k (e1\<lparr>expires_at := Some (int (clock r1) + 60)\<rparr>)
                (entries r1)\<rparr>)"
    using redis_expire_live [OF l1, of 60] by simp
  have rc: "rate_count r k =
      (Inr (n + 1),
       if n + 1 = 1
       then r1\<lparr>entries := AList.update k (e1\<lparr>expires_at := Some (int (clock r1) + 60)\<rparr>)
                (entries r1)\<rparr>
       else r1)"
    by (simp add: rate_count_def i x)
  show "fst (rate_count r k) = Inr (n + 1)" by (simp add: rc)
  show "clock (snd (rate_count r k)) = clock r" by (simp add: rc c1)
  have e1x: "e1\<lparr>expires_at := Some (int (clock r) + 60)\<rparr> =
      \<lparr>payload = JInt (n + 1), expires_at = Some (int (clock r) + 60)\<rparr>"
    by (simp add: e1_def)
  have e1y: "e1 = \<lparr>payload = JInt (n + 1), expires_at = expires_at e\<rparr>"
    by (simp add: e1_def)
  show "lookup (snd (rate_count r k)) k =
           Some \<lparr>payload = JInt (n + 1),
                 expires_at = (if n + 1 = 1 then Some (int (clock r) + 60) else expires_at e)\<rparr>"
  proof (cases "n + 1 = 1")
    case True
    then show ?thesis
      by (simp add: rc c1 e1x lookup_def update_conv' live_def)
  next
    case False
    then show ?thesis
      using l1 by (simp add: rc e1y)
  qed
qed

lemma rate_count_others:
  "k' \<noteq> k \<Longrightarrow> lookup (snd (rate_count r k)) k' = lookup r k'"
  by (auto simp: rate_count_def redis_incr_def redis_expire_def lookup_def update_conv'
      split: option.splits json.splits if_splits)


lemma redis_ttl_at:
  "lookup r k = Some e \<Longrightarrow> expires_at e = Some x \<Longrightarrow> redis_ttl r k = Some (x - int (clock r))"
  by (simp add: redis_ttl_def)

lemma search_first:
  assumes "lookup r (rate_key ip (clock r)) = None"
  shows "fst (rate_limited_search ip q r) = search_reply q 1 (Some 60)"
    and "lookup (snd (rate_limited_search ip q r)) (rate_key ip (clock r)) =
           Some \<lparr>payload = JInt 1, expires_at = Some (int (clock r) + 60)\<rparr>"
    and "clock (snd (rate_limited_search ip q r)) = clock r"
proof -
  let ?k = "rate_key ip (clock r)"
  obtain r1 where rc: "rate_count r ?k = (Inr 1, r1)"
    using rate_count_first(1) [OF assms] by (cases "rate_count r ?k") auto
  have l: "lookup r1 ?k = Some \<lparr>payload = JInt 1, expires_at = Some (int (clock r) + 60)\<rparr>"
    and c: "clock r1 = clock r"
    using rate_count_first(2,3) [OF assms] rc by simp_all
  have t: "redis_ttl r1 ?k = Some 60"
    using redis_ttl_at [OF l] c by simp
  show "fst (rate_limited_search ip q r) = search_reply q 1 (Some 60)"
    by (simp add: rate_limited_search_def rc t)
  show "lookup (snd (rate_limited_search ip q r)) ?k =
           Some \<lparr>payload = JInt 1, expires_at = Some (int (clock r) + 60)\<rparr>"
    by (simp add: rate_limited_search_def rc l)
  show "clock (snd (rate_limited_search ip q r)) = clock r"
    by (simp add: rate_limited_search_def rc c)
qed

lemma search_next:
  assumes "lookup r (rate_key ip (clock r)) =
             Some \<lparr>payload = JInt c, expires_at = Some (int (clock r) + 60)\<rparr>"
    and "1 \<le> c" "c + 1 < 2 ^ 63"
  shows "fst (rate_limited_search ip q r) = search_reply q (c + 1) (Some 60)"
    and "lookup (snd (rate_limited_search ip q r)) (rate_key ip (clock r)) =
           Some \<lparr>payload = JInt (c + 1), expires_at = Some (int (clock r) + 60)\<rparr>"
    and "clock (snd (rate_limited_search ip q r)) = clock r"
proof -
  let ?k = "rate_key ip (clock r)"
  let ?e = "\<lparr>payload = JInt c, expires_at = Some (int (clock r) + 60)\<rparr>"
  have range: "- (2 ^ 63) \<le> c" using assms(2) by simp
  have p: "payload ?e = JInt c" by simp
  note n = rate_count_next [OF assms(1) p range assms(3)]
  obtain r1 where rc: "rate_count r ?k = (Inr (c + 1), r1)"
    using n(1) by (cases "rate_count r ?k") auto
  have l: "lookup r1 ?k = Some \<lparr>payload = JInt (c + 1), expires_at = Some (int (clock r) + 60)\<rparr>"
    and c: "clock r1 = clock r"
    using n(2,3) rc assms(2) by simp_all
  have t: "redis_ttl r1 ?k = Some 60"
    using redis_ttl_at [OF l] c by simp
  show "fst (rate_limited_search ip q r) = search_reply q (c + 1) (Some 60)"
    by (simp add: rate_limited_search_def rc t)
  show "lookup (snd (rate_limited_search ip q r)) ?k =
           Some \<lparr>payload = JInt (c + 1), expires_at = Some (int (clock r) + 60)\<rparr>"
    by (simp add: rate_limited_search_def rc l)
  show "clock (snd (rate_limited_search ip q r)) = clock r"
    by (simp add: rate_limited_search_def rc c)
qed

lemma search_repeatedly_Suc:
  "fst (search_repeatedly (Suc n) ip q r) =
     fst (rate_limited_search ip q r) #
     fst (search_repeatedly n ip q (snd (rate_limited_search ip q r)))"
  by (simp split: prod.splits)

lemma search_repeatedly_from:
  "lookup r (rate_key ip (clock r)) =
     Some \<lparr>payload = JInt c, expires_at = Some (int (clock r) + 60)\<rparr> \<Longrightarrow>
   1 \<le> c \<Longrightarrow> c + int n < 2 ^ 63 \<Longrightarrow>
   fst (search_repeatedly n ip q r) =
     map (\<lambda>j. search_reply q (c + 1 + int j) (Some 60)) [0..<n]"
proof (induction n arbitrary: r c)
  case 0
  then show ?case by simp
next
  case (Suc n)
  have c1: "c + 1 < 2 ^ 63" using Suc.prems(3) by simp
  note s = search_next [OF Suc.prems(1,2) c1, of q]
  let ?r1 = "snd (rate_limited_search ip q r)"
  have l: "lookup ?r1 (rate_key ip (clock ?r1)) =
      Some \<lparr>payload = JInt (c + 1), expires_at = Some (int (clock ?r1) + 60)\<rparr>"
    using s(2,3) by simp
  have ih: "fst (search_repeatedly n ip q ?r1) =
      map (\<lambda>j. search_reply q (c + 1 + 1 + int j) (Some 60)) [0..<n]"
    using Suc.IH [OF l] Suc.prems(2,3) by simp
  have "fst (search_repeatedly (Suc n) ip q r) =
      search_reply q (c + 1) (Some 60) # fst (search_repeatedly n ip q ?r1)"
    using s(1) by (simp only: search_repeatedly_Suc)
  also have "\<dots> = map (\<lambda>j. search_reply q (c + 1 + int j) (Some 60)) [0..<Suc n]"
    unfolding ih by (simp add: upt_rec [of 0 "Suc n"] map_Suc_upt [symmetric] ac_simps del: upt_Suc)
  finally show ?case .
qed

lemma search_repeatedly_fresh:
  assumes "lookup r (rate_key ip (clock r)) = None" "int n < 2 ^ 63"
  shows "fst (search_repeatedly n ip q r) =
     map (\<lambda>j. search_reply q (1 + int j) (Some 60)) [0..<n]"
proof (cases n)
  case 0
  then show ?thesis by simp
next
  case (Suc m)
  note s = search_first [OF assms(1), of q]
  let ?r1 = "snd (rate_limited_search ip q r)"
  have l: "lookup ?r1 (rate_key ip (clock ?r1)) =
      Some \<lparr>payload = JInt 1, expires_at = Some (int (clock ?r1) + 60)\<rparr>"
    using s(2,3) by simp
  have rest: "fst (search_repeatedly m ip q ?r1) =
      map (\<lambda>j. search_reply q (1 + 1 + int j) (Some 60)) [0..<m]"
    using search_repeatedly_from [OF l, of m q] assms(2) Suc by simp
  have "fst (search_repeatedly (Suc m) ip q r) =
      search_reply q 1 (Some 60) # fst (search_repeatedly m ip q ?r1)"
    using s(1) by (simp only: search_repeatedly_Suc)
  also have "\<dots> = map (\<lambda>j. search_reply q (1 + int j) (Some 60)) [0..<Suc m]"
    unfolding rest by (simp add: upt_rec [of 0 "Suc m"] map_Suc_upt [symmetric] ac_simps del: upt_Suc)
  finally show ?thesis using Suc by simp
qed


lemma str_ttl_60: "str_ttl (Some 60) = ''60''"
  by (simp add: str_ttl_def str_int_def str_nat.simps digit_char_def)

text \<open>
  C5, as amended. The limit is the constant \<open>RATE_LIMIT = 10\<close>. From a fresh counter,
  when the same client calls \<open>n\<close> times (fewer than \<open>2^63\<close>) in immediate
  succession, call number
  \<open>i + 1\<close> is allowed exactly when \<open>i + 1 <= 10\<close>, the count being the
  post-increment counter: it then reports \<open>remaining = 10 - (i + 1)\<close>, which is 0 after
  the tenth call, and every later call is rejected with status 429.
\<close>

theorem rate_limit_first_ten:
  assumes "lookup r (rate_key ip (clock r)) = None" and "int n < 2 ^ 63" and "i < n"
  shows "RATE_LIMIT = 10 \<and>
    length (fst (search_repeatedly n ip q r)) = n \<and>
    fst (search_repeatedly n ip q r) ! i =
      (if int i + 1 \<le> RATE_LIMIT then
         Inr \<lparr>query = q, results = search_results q, requests_this_minute = int i + 1,
               limit = 10, remaining = 10 - (int i + 1), resets_in = Some 60\<rparr>
       else Inl (HTTPException 429 ''Rate limit exceeded. Try again in 60 seconds.''))"
proof -
  have run: "fst (search_repeatedly n ip q r) =
      map (\<lambda>j. search_reply q (1 + int j) (Some 60)) [0..<n]"
    using assms(1,2) by (rule search_repeatedly_fresh)
  have "fst (search_repeatedly n ip q r) ! i = search_reply q (1 + int i) (Some 60)"
    using assms(3) by (simp add: run)
  then show ?thesis
    by (simp add: run search_reply_def RATE_LIMIT_def str_ttl_60 ac_simps)
qed

theorem rate_limit_first_ten_witness:
  "lookup fresh (rate_key ''ip1'' (clock fresh)) = None \<and> int 11 < 2 ^ 63 \<and>
   (4::nat) < 11 \<and> (9::nat) < 11 \<and> (10::nat) < 11 \<and>
   length (fst (search_repeatedly 11 ''ip1'' ''test'' fresh)) = 11 \<and>
   fst (search_repeatedly 11 ''ip1'' ''test'' fresh) ! 4 =
     Inr \<lparr>query = ''test'', results = search_results ''test'', requests_this_minute = 5,
           limit = 10, remaining = 5, resets_in = Some 60\<rparr> \<and>
   fst (search_repeatedly 11 ''ip1'' ''test'' fresh) ! 9 =
     Inr \<lparr>query = ''test'', results = search_results ''test'', requests_this_minute = 10,
           limit = 10, remaining = 0, resets_in = Some 60\<rparr> \<and>
   fst (search_repeatedly 11 ''ip1'' ''test'' fresh) ! 10 =
     Inl (HTTPException 429 ''Rate limit exceeded. Try again in 60 seconds.'')"
proof -
  have f: "lookup fresh (rate_key ''ip1'' (clock fresh)) = None" by (rule lookup_fresh)
  have b: "int 11 < 2 ^ 63" by simp
  show ?thesis
    using rate_limit_first_ten [OF f b, of 4 "''test''"]
      rate_limit_first_ten [OF f b, of 9 "''test''"]
      rate_limit_first_ten [OF f b, of 10 "''test''"] f
    by simp
qed

text \<open>
  C5 as stated fails on the code's limit: of six calls in immediate succession all six
  are allowed, and \<open>remaining\<close> is 5 after the fifth.
\<close>

theorem sixth_request_allowed:
  "map (\<lambda>out. case out of Inl e \<Rightarrow> None | Inr resp \<Rightarrow> Some (remaining resp))
     (fst (search_repeatedly 6 ''ip1'' ''test'' fresh)) =
   [Some 9, Some 8, Some 7, Some 6, Some 5, Some 4]"
  by code_simp

text \<open>
  C6, as amended. The counter step of the rate limiter takes no window: the window is
  the constant 60 seconds of the source. For every key: on an absent or expired key it
  returns 1, the counter having been initialised to 0 before the increment, and sets the
  expiry to \<open>now + 60\<close>; on a counter holding \<open>n\<close> (with \<open>n + 1\<close> in the signed
  64-bit range) it returns \<open>n + 1\<close> and stores it, and the expiry stays what it was
  unless the post-increment value is 1. No other key is touched.
\<close>

theorem rate_count_window:
  "(lookup r k = None \<longrightarrow>
      fst (rate_count r k) = Inr 1 \<and>
      lookup (snd (rate_count r k)) k =
        Some \<lparr>payload = JInt 1, expires_at = Some (int (clock r) + 60)\<rparr>)
   \<and> (lookup r k = Some e \<and> payload e = JInt n \<and> - (2 ^ 63) \<le> n \<and> n + 1 < 2 ^ 63 \<longrightarrow>
      fst (rate_count r k) = Inr (n + 1) \<and>
      lookup (snd (rate_count r k)) k =
        Some \<lparr>payload = JInt (n + 1),
              expires_at = (if n + 1 = 1 then Some (int (clock r) + 60) else expires_at e)\<rparr>)
   \<and> (k' \<noteq> k \<longrightarrow> lookup (snd (rate_count r k)) k' = lookup r k')"
  using rate_count_first(1,2) [of r k] rate_count_next(1,2) [of r k e n]
    rate_count_others [of k' k r]
  by blast

theorem rate_count_window_witness:
  "lookup fresh ''rate:ip1:0'' = None \<and>
   fst (rate_count fresh ''rate:ip1:0'') = Inr 1 \<and>
   lookup (elapse 30 (snd (rate_count fresh ''rate:ip1:0''))) ''rate:ip1:0'' =
     Some \<lparr>payload = JInt 1, expires_at = Some 60\<rparr> \<and>
   fst (rate_count (elapse 30 (snd (rate_count fresh ''rate:ip1:0''))) ''rate:ip1:0'') = Inr 2 \<and>
   lookup (snd (rate_count (elapse 30 (snd (rate_count fresh ''rate:ip1:0''))) ''rate:ip1:0''))
       ''rate:ip1:0'' =
     Some \<lparr>payload = JInt 2, expires_at = Some 60\<rparr> \<and>
   ''rate:ip2:0'' \<noteq> ''rate:ip1:0'' \<and>
   lookup (snd (rate_count fresh ''rate:ip1:0'')) ''rate:ip2:0'' = None"
proof -
  let ?k = "''rate:ip1:0''"
  let ?r = "elapse 30 (snd (rate_count fresh ?k))"
  let ?e = "\<lparr>payload = JInt 1, expires_at = Some 60\<rparr>"
  have f: "lookup fresh ?k = None" by (rule lookup_fresh)
  have l: "lookup ?r ?k = Some ?e" by code_simp
  show ?thesis
    using rate_count_window [of fresh ?k _ _ "''rate:ip2:0''"]
      rate_count_window [of ?r ?k ?e 1 "''rate:ip2:0''"] f l
    by (simp add: lookup_fresh)
qed

text \<open>
  C6 as stated, for every \<open>window_ttl\<close>, fails at any window other than 60 seconds,
  30 say: the first increment sets the expiry 60 seconds ahead, not 30, and an increment
  30 seconds later finds the counter still there and returns 2, where a window of 30
  seconds would have ended and the count restarted at 1.
\<close>

theorem window_is_sixty_seconds:
  "map_option expires_at (lookup (snd (rate_count fresh ''rate:ip1:0'')) ''rate:ip1:0'')
     = Some (Some (int (clock fresh) + 60)) \<and>
   map_option expires_at (lookup (snd (rate_count fresh ''rate:ip1:0'')) ''rate:ip1:0'')
     \<noteq> Some (Some (int (clock fresh) + 30)) \<and>
   fst (rate_count (elapse 30 (snd (rate_count fresh ''rate:ip1:0''))) ''rate:ip1:0'') = Inr 2"
  by code_simp

section \<open>Cache aside: hits, misses and the loader\<close>

lemma lookup_after_get: "lookup (snd (cache_get r k)) k' = lookup r k'"
  by (auto simp: cache_get_def redis_get_def lookup_def delete_conv' split: option.splits)

lemma clock_after_get: "clock (snd (cache_get r k)) = clock r"
  by (auto simp: cache_get_def redis_get_def split: option.splits)

lemma lookup_elapse_None: "lookup r k = None \<Longrightarrow> lookup (elapse t r) k = None"
  by (auto simp: lookup_def elapse_def live_def split: option.splits if_splits)

lemma lookup_elapse_Some: "lookup (elapse t r) k = Some e \<Longrightarrow> lookup r k = Some e"
  by (auto simp: lookup_def elapse_def live_def split: option.splits if_splits)

lemma truthy_product_data: "truthy (json_loads (json_dumps (product_data p)))"
  by (simp add: roundtrip_product_data) (simp add: product_data_def)

lemma all_truthy_fresh: "all_truthy fresh"
  by (simp add: all_truthy_def lookup_fresh)

lemma all_truthy_elapse: "all_truthy r \<Longrightarrow> all_truthy (elapse t r)"
  by (auto simp: all_truthy_def dest: lookup_elapse_Some)

lemma all_truthy_get: "all_truthy r \<Longrightarrow> all_truthy (snd (cache_get r k))"
  by (simp add: all_truthy_def lookup_after_get)

lemma lookup_cache_set:
  "lookup (snd (cache_set r k v 3600)) k' =
     (if k' = k then Some \<lparr>payload = json_dumps v, expires_at = Some (int (clock r) + 3600)\<rparr>
      else lookup r k')"
  by (auto simp: cache_set_positive lookup_def live_def update_conv' split: option.splits)

lemma all_truthy_set:
  "all_truthy r \<Longrightarrow> truthy (json_loads (json_dumps v)) \<Longrightarrow>
   all_truthy (snd (cache_set r k v 3600))"
  by (auto simp: all_truthy_def lookup_cache_set split: if_splits)

lemma aside_hit:
  assumes "lookup r (product_key i) = Some e" "truthy (json_loads (payload e))"
  shows "get_product_cache_aside db i (d, r) =
           (Inr \<lparr>cache_hit = True, product = json_loads (payload e)\<rparr>, (d, r))"
  using assms by (simp add: get_product_cache_aside_def cache_get_hit)

lemma aside_miss:
  assumes "\<not> truthy (fst (cache_get r (product_key i)))"
  shows "get_product_cache_aside db i (d, r) =
     (case query_first db d i of
        (Inl e, d1) \<Rightarrow> (Inl e, (d1, snd (cache_get r (product_key i))))
      | (Inr None, d1) \<Rightarrow>
          (Inl (HTTPException 404 ''Product not found''),
           (d1, snd (cache_get r (product_key i))))
      | (Inr (Some p), d1) \<Rightarrow>
          (Inr \<lparr>cache_hit = False, product = product_data p\<rparr>,
           (d1, snd (cache_set (snd (cache_get r (product_key i))) (product_key i)
                  (product_data p) 3600))))"
proof (cases "cache_get r (product_key i)")
  case (Pair cached r1)
  then show ?thesis
    using assms
    by (simp add: get_product_cache_aside_def cache_set_positive Let_def
        split: prod.splits sum.splits option.splits)
qed

lemma lookup_None_falsy: "lookup r k = None \<Longrightarrow> \<not> truthy (fst (cache_get r k))"
  by (simp add: cache_get_miss)

lemma counting_query:
  "query_first (counting db) dn i =
     (fst (query_first db (fst dn) i), (snd (query_first db (fst dn) i), snd dn + 1))"
  by (simp add: counting_def split: prod.splits)

lemma aside_step:
  assumes "all_truthy r"
  shows "all_truthy (snd (snd (get_product_cache_aside (counting db) i ((d, n), r)))) \<and>
    snd (fst (snd (get_product_cache_aside (counting db) i ((d, n), r)))) =
      (if is_hit (fst (get_product_cache_aside (counting db) i ((d, n), r))) then n else n + 1)"
proof (cases "lookup r (product_key i)")
  case None
  let ?r1 = "snd (cache_get r (product_key i))"
  have t1: "all_truthy ?r1" using assms by (rule all_truthy_get)
  show ?thesis
    using t1 all_truthy_set [OF t1 truthy_product_data]
    by (simp add: aside_miss [OF lookup_None_falsy [OF None]] counting_query
        split: prod.splits sum.splits option.splits)
next
  case (Some e)
  then have "truthy (json_loads (payload e))" using assms by (auto simp: all_truthy_def)
  then show ?thesis using assms by (simp add: aside_hit [OF Some])
qed

lemma run_Request:
  "cache_aside_run db (Request i # steps) s =
     (fst (get_product_cache_aside db i s) #
        fst (cache_aside_run db steps (snd (get_product_cache_aside db i s))),
      snd (cache_aside_run db steps (snd (get_product_cache_aside db i s))))"
  by (simp split: prod.splits)

lemma run_counts:
  "all_truthy r \<Longrightarrow>
   all_truthy (snd (snd (cache_aside_run (counting db) steps ((d, n), r)))) \<and>
   snd (fst (snd (cache_aside_run (counting db) steps ((d, n), r)))) =
     n + length (filter (\<lambda>out. \<not> is_hit out) (fst (cache_aside_run (counting db) steps ((d, n), r))))"
proof (induction steps arbitrary: d n r)
  case Nil
  then show ?case by simp
next
  case (Cons st steps)
  show ?case
  proof (cases st)
    case (Request i)
    obtain out d1 n1 r1 where g:
      "get_product_cache_aside (counting db) i ((d, n), r) = (out, ((d1, n1), r1))"
      by (metis surj_pair)
    from aside_step [OF Cons.prems, of db i d n] g
    have t: "all_truthy r1" and c: "n1 = (if is_hit out then n else n + 1)" by simp_all
    from Cons.IH [OF t, of d1 n1] show ?thesis
      unfolding Request run_Request g by (simp add: c)
  next
    case (Wait t)
    from Cons.IH [OF all_truthy_elapse [OF Cons.prems, of t], of d n] show ?thesis
      by (simp add: Wait)
  qed
qed


text \<open>
  C3. Cache aside: when the handler misses (\<open>cache_get\<close> returns nothing that
  passes \<open>if cached:\<close>) and the loader fails, by raising or by finding no row, the
  handler ends in that error (the 404 for no row) and nothing is stored: every key of
  the store holds what it held before. When the key was absent or expired, a later
  \<open>cache_get\<close> of it, at any later time, still returns \<open>None\<close>.
\<close>

theorem cache_aside_loader_failure:
  "(\<not> truthy (fst (cache_get r (product_key i))) \<and> query_first db d i = (Inl e, d1) \<longrightarrow>
      fst (get_product_cache_aside db i (d, r)) = Inl e \<and>
      fst (snd (get_product_cache_aside db i (d, r))) = d1 \<and>
      lookup (snd (snd (get_product_cache_aside db i (d, r)))) k = lookup r k)
   \<and> (\<not> truthy (fst (cache_get r (product_key i))) \<and> query_first db d i = (Inr None, d1) \<longrightarrow>
      fst (get_product_cache_aside db i (d, r)) = Inl (HTTPException 404 ''Product not found'') \<and>
      fst (snd (get_product_cache_aside db i (d, r))) = d1 \<and>
      lookup (snd (snd (get_product_cache_aside db i (d, r)))) k = lookup r k)
   \<and> (lookup r (product_key i) = None \<and>
       (query_first db d i = (Inl e, d1) \<or> query_first db d i = (Inr None, d1)) \<longrightarrow>
      isl (fst (get_product_cache_aside db i (d, r))) \<and>
      fst (cache_get (elapse t (snd (snd (get_product_cache_aside db i (d, r)))))
             (product_key i)) = PNone)"
proof -
  let ?G = "get_product_cache_aside db i (d, r)"
  have 1: "fst ?G = Inl e \<and> fst (snd ?G) = d1 \<and> lookup (snd (snd ?G)) k = lookup r k"
    if "\<not> truthy (fst (cache_get r (product_key i)))" "query_first db d i = (Inl e, d1)" for k
    using that by (simp add: aside_miss lookup_after_get)
  have 2: "fst ?G = Inl (HTTPException 404 ''Product not found'') \<and> fst (snd ?G) = d1 \<and>
      lookup (snd (snd ?G)) k = lookup r k"
    if "\<not> truthy (fst (cache_get r (product_key i)))" "query_first db d i = (Inr None, d1)" for k
    using that by (simp add: aside_miss lookup_after_get)
  have 3: "isl (fst ?G) \<and> fst (cache_get (elapse t (snd (snd ?G))) (product_key i)) = PNone"
    if n: "lookup r (product_key i) = None"
      and q: "query_first db d i = (Inl e, d1) \<or> query_first db d i = (Inr None, d1)"
  proof -
    have f: "\<not> truthy (fst (cache_get r (product_key i)))"
      using n by (rule lookup_None_falsy)
    have "isl (fst ?G) \<and> lookup (snd (snd ?G)) (product_key i) = None"
      using q 1 [OF f, of "product_key i"] 2 [OF f, of "product_key i"] n by auto
    then show ?thesis
      by (simp add: cache_get_miss lookup_elapse_None)
  qed
  show ?thesis using 1 2 3 by blast
qed

theorem cache_aside_loader_failure_witness:
  "\<not> truthy (fst (cache_get demo_store (product_key 7))) \<and>
   lookup demo_store (product_key 7) = None \<and>
   query_first broken_session () 7 = (Inl (DbError ''database is down''), ()) \<and>
   fst (get_product_cache_aside broken_session 7 ((), demo_store))
     = Inl (DbError ''database is down'') \<and>
   lookup (snd (snd (get_product_cache_aside broken_session 7 ((), demo_store)))) (product_key 7)
     = None \<and>
   query_first table_session seed 7 = (Inr None, seed) \<and>
   fst (get_product_cache_aside table_session 7 (seed, demo_store))
     = Inl (HTTPException 404 ''Product not found'') \<and>
   fst (cache_get (elapse 10 (snd (snd (get_product_cache_aside table_session 7
          (seed, demo_store))))) (product_key 7)) = PNone"
proof -
  have f: "\<not> truthy (fst (cache_get demo_store (product_key 7)))" by code_simp
  have n: "lookup demo_store (product_key 7) = None" by code_simp
  have b: "query_first broken_session () 7 = (Inl (DbError ''database is down''), ())"
    by (simp add: broken_session_def)
  have q: "query_first table_session seed 7 = (Inr None, seed)" by code_simp
  show ?thesis
    using f n b q
      cache_aside_loader_failure
        [of demo_store 7 broken_session "()" "DbError ''database is down''" "()" "product_key 7"]
      cache_aside_loader_failure
        [of demo_store 7 table_session seed _ seed "product_key 7" 10]
    by simp
qed

text \<open>
  C4. Cache aside, for every sequence of requests (for any product ids, with any waits in
  between) that starts from the empty cache, with the loader instrumented by a call
  counter: the number of loader calls made is the number of requests that were not
  answered as hits, and in the state reached the next request for any product is a hit
  exactly when its key is present and unexpired. A hit returns the cached value with
  \<open>cache_hit = True\<close> and changes nothing, the counter included; a miss calls the
  loader once and, when the loader returns a row, stores it for 3600 seconds and returns
  it with \<open>cache_hit = False\<close>. (The handler's hit test is \<open>if cached:\<close>; what
  the handler stores always passes it.)
\<close>

theorem cache_aside_loader_calls:
  assumes "cache_aside_run (counting db) steps ((d0, 0), fresh) = (outs, ((d, n), r))"
  shows "n = length (filter (\<lambda>out. \<not> is_hit out) outs) \<and>
    (case lookup r (product_key i) of
       Some e \<Rightarrow>
         get_product_cache_aside (counting db) i ((d, n), r) =
           (Inr \<lparr>cache_hit = True, product = json_loads (payload e)\<rparr>, ((d, n), r))
     | None \<Rightarrow>
         snd (fst (snd (get_product_cache_aside (counting db) i ((d, n), r)))) = n + 1 \<and>
         (query_first db d i = (Inr (Some p), d') \<longrightarrow>
            fst (get_product_cache_aside (counting db) i ((d, n), r)) =
              Inr \<lparr>cache_hit = False, product = product_data p\<rparr> \<and>
            fst (fst (snd (get_product_cache_aside (counting db) i ((d, n), r)))) = d' \<and>
            lookup (snd (snd (get_product_cache_aside (counting db) i ((d, n), r))))
                (product_key i) =
              Some \<lparr>payload = json_dumps (product_data p), expires_at = Some (int (clock r) + 3600)\<rparr>))"
proof -
  from run_counts [OF all_truthy_fresh, of db steps d0 0] assms
  have t: "all_truthy r" and c: "n = length (filter (\<lambda>out. \<not> is_hit out) outs)"
    by simp_all
  let ?G = "get_product_cache_aside (counting db) i ((d, n), r)"
  show ?thesis
  proof (cases "lookup r (product_key i)")
    case None
    have f: "\<not> truthy (fst (cache_get r (product_key i)))"
      using None by (rule lookup_None_falsy)
    have m: "snd (fst (snd ?G)) = n + 1"
      by (simp add: aside_miss [OF f] counting_query split: prod.splits sum.splits option.splits)
    have s: "fst ?G = Inr \<lparr>cache_hit = False, product = product_data p\<rparr> \<and>
        fst (fst (snd ?G)) = d' \<and>
        lookup (snd (snd ?G)) (product_key i) =
          Some \<lparr>payload = json_dumps (product_data p), expires_at = Some (int (clock r) + 3600)\<rparr>"
      if "query_first db d i = (Inr (Some p), d')"
      using that by (simp add: aside_miss [OF f] counting_query lookup_cache_set clock_after_get)
    show ?thesis using None c m s by simp
  next
    case (Some e)
    then have "truthy (json_loads (payload e))" using t by (auto simp: all_truthy_def)
    then show ?thesis using Some c by (simp add: aside_hit [OF Some])
  qed
qed

theorem cache_aside_loader_calls_witness:
  "map is_hit (fst (cache_aside_run (counting table_session) visits ((seed, 0), fresh)))
     = [False, True, False, False] \<and>
   snd (fst (snd (cache_aside_run (counting table_session) visits ((seed, 0), fresh)))) = 3 \<and>
   snd (fst (snd (cache_aside_run (counting table_session) visits ((seed, 0), fresh)))) =
     length (filter (\<lambda>out. \<not> is_hit out)
       (fst (cache_aside_run (counting table_session) visits ((seed, 0), fresh)))) \<and>
   lookup (snd (snd (cache_aside_run (counting table_session) visits ((seed, 0), fresh))))
       (product_key 1)
     = Some \<lparr>payload = json_dumps (product_data (hd seed)), expires_at = Some 7201\<rparr> \<and>
   get_product_cache_aside (counting table_session) 1
       (snd (cache_aside_run (counting table_session) visits ((seed, 0), fresh)))
     = (Inr \<lparr>cache_hit = True, product = product_data (hd seed)\<rparr>,
        snd (cache_aside_run (counting table_session) visits ((seed, 0), fresh))) \<and>
   lookup (snd (snd (cache_aside_run (counting table_session) visits ((seed, 0), fresh))))
       (product_key 2) = None \<and>
   query_first table_session seed 2 = (Inr (Some (seed ! 1)), seed) \<and>
   fst (get_product_cache_aside (counting table_session) 2
       (snd (cache_aside_run (counting table_session) visits ((seed, 0), fresh))))
     = Inr \<lparr>cache_hit = False, product = product_data (seed ! 1)\<rparr> \<and>
   snd (fst (snd (get_product_cache_aside (counting table_session) 2
       (snd (cache_aside_run (counting table_session) visits ((seed, 0), fresh)))))) = 4"
proof -
  let ?X = "cache_aside_run (counting table_session) visits ((seed, 0), fresh)"
  define r where "r = snd (snd ?X)"
  have n: "snd (fst (snd ?X)) = 3" by code_simp
  have d: "fst (fst (snd ?X)) = seed" by code_simp
  have sx: "snd ?X = ((seed, 3), r)"
    using n d by (simp add: r_def prod_eq_iff)
  have x: "?X = (fst ?X, ((seed, 3), r))"
    using sx by (simp add: prod_eq_iff)
  have h: "map is_hit (fst ?X) = [False, True, False, False]" by code_simp
  have l1: "lookup r (product_key 1) =
      Some \<lparr>payload = json_dumps (product_data (hd seed)), expires_at = Some 7201\<rparr>"
    unfolding r_def by code_simp
  have l2: "lookup r (product_key 2) = None"
    unfolding r_def by code_simp
  have q: "query_first table_session seed 2 = (Inr (Some (seed ! 1)), seed)" by code_simp
  show ?thesis
    using cache_aside_loader_calls [OF x, of 1] cache_aside_loader_calls [OF x, of 2 "seed ! 1" seed]
      h l1 l2 q
    by (simp add: sx roundtrip_product_data)
qed

end
